theory Spec2Isabelle
  imports Main "HOL-Library.Word" "HOL-Library.Product_Lexorder" "HOL-Library.AList"
begin

unbundle bit_operations_syntax

section \<open>Old Time Radio firmware (src/src/main.py): shallow embedding\<close>

text \<open>
  Python integers are \<open>int\<close>; bytes that leave the program (UART frames, EEPROM
  contents) are \<open>8 word\<close>; a dict is an association list with the dict operations
  (\<open>map_of\<close> for lookup, \<open>AList.update\<close> for item assignment, which keeps the
  position of an existing key and appends a new one, as a Python dict does).
  Module globals and the devices they talk to are the fields of the record \<open>world\<close>;
  what the hardware answers during one operation (tick counter, bus health, RTC
  registers, the schedule file) is the record \<open>env\<close>. An exception that the source
  does not catch is a value \<open>Inl e\<close>.
\<close>

type_synonym byte = "8 word"
type_synonym datetime = "int \<times> int \<times> int \<times> int \<times> int \<times> int"

datatype py_error = IndexError | ValueError

subsection \<open>Configuration constants\<close>

definition MAX_ALBUM_NUM :: int where "MAX_ALBUM_NUM = 99"
definition MID :: int where "MID = 32768"
definition EEPROM_BASE_ADDR :: int where "EEPROM_BASE_ADDR = 0x50"
definition EEPROM_MAX_ADDR :: int where "EEPROM_MAX_ADDR = 0x57"
definition RTC_ADDR :: int where "RTC_ADDR = 0x68"
definition EEPROM_PAGE_SIZE :: nat where "EEPROM_PAGE_SIZE = 32"
definition EEPROM_STATE_ADDR :: nat where "EEPROM_STATE_ADDR = 0"
definition EEPROM_SAVE_MIN_MS :: int where "EEPROM_SAVE_MIN_MS = 60000"
definition EEPROM_MAGIC :: "byte list" where "EEPROM_MAGIC = [0x4F, 0x54, 0x52, 0x31]"
definition EEPROM_VERSION :: int where "EEPROM_VERSION = 1"
definition EEPROM_FLAG_RTC_SET :: int where "EEPROM_FLAG_RTC_SET = 1"
definition EEPROM_STRUCT_LEN :: nat where "EEPROM_STRUCT_LEN = 20"
definition RTC_BOOTSTRAP_TIME :: "datetime option" where "RTC_BOOTSTRAP_TIME = None"
definition RTC_FORCE_BOOTSTRAP :: bool where "RTC_FORCE_BOOTSTRAP = False"
definition RTC_SERIAL_SET_MS :: int where "RTC_SERIAL_SET_MS = 5000"

subsection \<open>State\<close>

record world =
  current_album :: int
  current_track :: int
  KNOWN_TRACKS :: "(int \<times> int) list"
  ignore_busy_until :: int
  i2c :: bool
  eeprom_addr :: "int option"
  last_eeprom_save_ms :: int
  eeprom_flags :: int
  album_file :: "string option"
  eeprom_mem :: "byte list"
  uart_tx :: "byte list list"

text \<open>
  \<open>i2c\<close> is True when the global \<open>i2c\<close> is not \<open>None\<close>. \<open>album_file\<close> is the content
  of album_state.txt (\<open>None\<close>: the file cannot be opened). \<open>eeprom_mem\<close> is the memory
  image of the EEPROM chip, \<open>uart_tx\<close> the frames written to the UART so far.
\<close>

record env =
  ticks_ms :: int
  bus_ok :: bool
  rtc_time :: datetime
  schedule_file :: "string list option"
  schedule_mtime :: int
  i2c_scan :: "int list option"
  rtc_osf :: bool
  serial_fields :: "datetime option"

text \<open>
  \<open>ticks_ms\<close> is what \<open>time.ticks_ms()\<close> returns during the operation, \<open>bus_ok\<close>
  whether I2C transfers succeed (False: they raise, and the source's handlers run),
  \<open>rtc_time\<close> the decoded DS3231 registers, \<open>schedule_file\<close> the lines of
  schedule.csv as iteration over the file yields them (\<open>None\<close>: the file cannot be
  read), \<open>schedule_mtime\<close> the result of \<open>get_schedule_mtime()\<close>,
  \<open>i2c_scan\<close> the addresses the bus scan finds (\<open>None\<close>: setting up the bus
  raises), \<open>rtc_osf\<close> the oscillator-stop bit of the RTC status register, and
  \<open>serial_fields\<close> the six numbers of the line the operator sent on the serial
  console (\<open>None\<close>: no line in the window, or not a date and a time).
\<close>

subsection \<open>Tick arithmetic (MicroPython \<open>time.ticks_add\<close>, \<open>time.ticks_diff\<close>)\<close>

definition TICKS_PERIOD :: int where "TICKS_PERIOD = 2 ^ 30"

definition ticks_add :: "int \<Rightarrow> int \<Rightarrow> int" where
  "ticks_add t delta = (t + delta) mod TICKS_PERIOD"

definition ticks_diff :: "int \<Rightarrow> int \<Rightarrow> int" where
  "ticks_diff a b = ((a - b + TICKS_PERIOD div 2) mod TICKS_PERIOD) - TICKS_PERIOD div 2"

subsection \<open>Decoder link\<close>

text \<open>
  \<open>df_send\<close>: the frame is built as a list of ints, the checksum is
  \<open>-sum(pkt[1:7]) & 0xFFFF\<close>, and the bytearray holds each int as a byte. The
  callers pass the command constants 0x3F, 0x06, 0x0F and 0x16.
\<close>

definition df_frame :: "int \<Rightarrow> int \<Rightarrow> int \<Rightarrow> int list" where
  "df_frame cmd p1 p2 =
     (let pkt = [0x7E, 0xFF, 0x06, cmd, 0x00, p1 AND 0xFF, p2 AND 0xFF];
          csum = (- sum_list (take 6 (drop 1 pkt))) AND 0xFFFF
      in pkt @ [drop_bit 8 csum AND 0xFF, csum AND 0xFF, 0xEF])"

definition df_send :: "int \<Rightarrow> int \<Rightarrow> int \<Rightarrow> world \<Rightarrow> world" where
  "df_send cmd p1 p2 w = w\<lparr>uart_tx := uart_tx w @ [map word_of_int (df_frame cmd p1 p2)]\<rparr>"

definition df_reset :: "world \<Rightarrow> world" where
  "df_reset w = df_send 0x3F 0x00 0x00 w"

definition df_set_vol :: "int \<Rightarrow> world \<Rightarrow> world" where
  "df_set_vol v w = df_send 0x06 0x00 (max 0 (min 30 v)) w"

definition df_play_folder_track :: "int \<Rightarrow> int \<Rightarrow> world \<Rightarrow> world" where
  "df_play_folder_track folder track w = df_send 0x0F folder track w"

definition df_stop :: "world \<Rightarrow> world" where
  "df_stop w = df_send 0x16 0 0 w"

subsection \<open>Python built-ins on strings\<close>

text \<open>
  \<open>str.strip()\<close> removes ASCII whitespace at both ends; \<open>str.split(sep)\<close> with a
  one-character separator cuts at every occurrence; \<open>int(s)\<close> accepts surrounding
  whitespace, an optional sign and decimal digits, and raises ValueError (\<open>None\<close>)
  otherwise; \<open>"%d" % i\<close> writes the decimal digits of \<open>i\<close> with a leading minus
  sign for a negative number. The firmware runs on MicroPython, whose number parser
  skips every underscore among the digits (\<open>int("1_0")\<close> is 10).
\<close>

definition is_space :: "char \<Rightarrow> bool" where
  "is_space c = (c \<in> set [CHR 0x09, CHR 0x0A, CHR 0x0B, CHR 0x0C, CHR 0x0D, CHR 0x20])"

definition strip :: "string \<Rightarrow> string" where
  "strip s = rev (dropWhile is_space (rev (dropWhile is_space s)))"

fun split :: "char \<Rightarrow> string \<Rightarrow> string list" where
  "split sep [] = [[]]"
| "split sep (c # cs) =
     (if c = sep then [] # split sep cs
      else (case split sep cs of [] \<Rightarrow> [[c]] | p # ps \<Rightarrow> (c # p) # ps))"

fun join :: "string \<Rightarrow> string list \<Rightarrow> string" where
  "join sep [] = []"
| "join sep [x] = x"
| "join sep (x # y # ys) = x @ sep @ join sep (y # ys)"

definition is_digit :: "char \<Rightarrow> bool" where
  "is_digit c = (c \<in> set ''0123456789'')"

definition digit_val :: "char \<Rightarrow> int" where
  "digit_val c = int (of_char c) - 48"

definition parse_digits :: "string \<Rightarrow> int option" where
  "parse_digits s =
     (if s \<noteq> [] \<and> list_all (\<lambda>c. is_digit c \<or> c = CHR ''_'') s
      then Some (foldl (\<lambda>acc c. 10 * acc + digit_val c) 0 (filter is_digit s)) else None)"

definition py_int :: "string \<Rightarrow> int option" where
  "py_int s =
     (case strip s of
        [] \<Rightarrow> None
      | c # ds \<Rightarrow>
          if c = CHR ''-'' then map_option uminus (parse_digits ds)
          else if c = CHR ''+'' then parse_digits ds
          else parse_digits (c # ds))"

function digits :: "nat \<Rightarrow> string" where
  "digits n = (if n < 10 then [''0123456789'' ! n] else digits (n div 10) @ [''0123456789'' ! (n mod 10)])"
  by pat_completeness auto
termination
  by (relation "measure id") auto

definition str_int :: "int \<Rightarrow> string" where
  "str_int i = (if i < 0 then CHR ''-'' # digits (nat (- i)) else digits (nat i))"

text \<open>
  Python indexing \<open>xs[i]\<close>: an index from \<open>-len(xs)\<close> to \<open>-1\<close> counts from
  the end, and an index outside \<open>-len(xs) .. len(xs) - 1\<close> raises IndexError.
\<close>

definition py_index :: "'a list \<Rightarrow> int \<Rightarrow> py_error + 'a" where
  "py_index xs i =
     (if 0 \<le> i \<and> i < int (length xs) then Inr (xs ! nat i)
      else if i < 0 \<and> - int (length xs) \<le> i then Inr (xs ! nat (int (length xs) + i))
      else Inl IndexError)"

definition dict_get :: "(int \<times> int) list \<Rightarrow> int \<Rightarrow> int \<Rightarrow> int" where
  "dict_get d k dflt = (case map_of d k of None \<Rightarrow> dflt | Some v \<Rightarrow> v)"

subsection \<open>Week position\<close>

definition iso_weekday :: "int \<Rightarrow> int \<Rightarrow> int \<Rightarrow> py_error + int" where
  "iso_weekday year month day =
     (let y = (if month < 3 then year - 1 else year)
      in case py_index [0, 3, 2, 5, 0, 3, 5, 1, 4, 6, 2, 4] (month - 1) of
           Inl e \<Rightarrow> Inl e
         | Inr tm \<Rightarrow>
             let dow = (y + y div 4 - y div 100 + y div 400 + tm + day) mod 7
             in Inr (if dow = 0 then 7 else dow))"

definition seconds_into_week :: "datetime \<Rightarrow> py_error + int" where
  "seconds_into_week dt =
     (case dt of (year, month, day, hour, minute, second) \<Rightarrow>
        (case iso_weekday year month day of
           Inl e \<Rightarrow> Inl e
         | Inr dow \<Rightarrow> Inr (((dow - 1) * 86400) + (hour * 3600) + (minute * 60) + second)))"

definition rtc_read_datetime :: "env \<Rightarrow> world \<Rightarrow> datetime option" where
  "rtc_read_datetime e w =
     (if \<not> i2c w then None else if \<not> bus_ok e then None else Some (rtc_time e))"

subsection \<open>Schedule aligner\<close>

definition parse_duration :: "string \<Rightarrow> int option" where
  "parse_duration value0 =
     (let v = strip value0
      in if CHR '':'' \<in> set v then
           (let parts = map py_int (split (CHR '':'') v)
            in if None \<in> set parts then None
               else (case map the parts of
                       [m, s] \<Rightarrow> Some (m * 60 + s)
                     | [h, m, s] \<Rightarrow> Some (h * 3600 + m * 60 + s)
                     | _ \<Rightarrow> None))
         else py_int v)"

definition parse_schedule_line :: "string \<Rightarrow> (int \<times> int \<times> int) option" where
  "parse_schedule_line line =
     (let raw = strip line
      in if raw = [] then None
         else if hd raw = CHR ''#'' then None
         else
           (let raw2 = (if CHR ''#'' \<in> set raw
                        then strip (takeWhile (\<lambda>c. c \<noteq> CHR ''#'') raw) else raw)
            in if raw2 = [] then None
               else
                 (case map strip (split (CHR '','') raw2) of
                    p0 # p1 # p2 # _ \<Rightarrow>
                      (case py_int p0 of
                         None \<Rightarrow> None
                       | Some folder \<Rightarrow>
                           (case py_int p1 of
                              None \<Rightarrow> None
                            | Some track \<Rightarrow>
                                (case parse_duration p2 of
                                   None \<Rightarrow> None
                                 | Some duration \<Rightarrow>
                                     if duration \<le> 0 then None
                                     else if folder < 1 \<or> track < 1 then None
                                     else Some (folder, track, duration))))
                  | _ \<Rightarrow> None)))"

type_synonym scan_result = "(int \<times> int) option \<times> (int \<times> int) list \<times> int"

fun scan_lines :: "int \<Rightarrow> string list \<Rightarrow> scan_result \<Rightarrow> scan_result" where
  "scan_lines target_sec [] acc = acc"
| "scan_lines target_sec (line # rest) (found, folder_counts, tot) =
     (case parse_schedule_line line of
        None \<Rightarrow> scan_lines target_sec rest (found, folder_counts, tot)
      | Some (folder, track, duration) \<Rightarrow>
          if folder > MAX_ALBUM_NUM then scan_lines target_sec rest (found, folder_counts, tot)
          else
            scan_lines target_sec rest
              (if found = None \<and> target_sec < tot + duration then Some (folder, track) else found,
               if track > dict_get folder_counts folder 0
               then AList.update folder track folder_counts else folder_counts,
               tot + duration))"

definition scan_schedule :: "env \<Rightarrow> int \<Rightarrow> scan_result" where
  "scan_schedule e target_sec =
     (case schedule_file e of
        None \<Rightarrow> (None, [], 0)
      | Some lines \<Rightarrow> scan_lines target_sec lines (None, [], 0))"

definition find_track_for_time :: "env \<Rightarrow> int \<Rightarrow> scan_result" where
  "find_track_for_time e target_sec =
     (case scan_schedule e target_sec of
        (found, counts, tot) \<Rightarrow>
          if tot \<le> 0 then (None, [], 0)
          else if found = None then (fst (scan_schedule e (target_sec mod tot)), counts, tot)
          else (found, counts, tot))"

subsection \<open>Secondary store: EEPROM record\<close>

definition detect_eeprom_addr :: "int list \<Rightarrow> world \<Rightarrow> world" where
  "detect_eeprom_addr devices w =
     (if \<not> i2c w then w
      else w\<lparr>eeprom_addr := find (\<lambda>addr. addr \<in> set devices) [EEPROM_BASE_ADDR..EEPROM_MAX_ADDR]\<rparr>)"

definition rtc_init :: "env \<Rightarrow> world \<Rightarrow> bool \<times> world" where
  "rtc_init e w =
     (case i2c_scan e of
        None \<Rightarrow> (False, w\<lparr>i2c := False\<rparr>)
      | Some devices \<Rightarrow>
          if RTC_ADDR \<in> set devices then (True, detect_eeprom_addr devices (w\<lparr>i2c := True\<rparr>))
          else (False, w\<lparr>i2c := False\<rparr>))"

definition rtc_osf_set :: "env \<Rightarrow> world \<Rightarrow> bool" where
  "rtc_osf_set e w = (if \<not> i2c w then True else if \<not> bus_ok e then True else rtc_osf e)"

definition eeprom_read :: "env \<Rightarrow> world \<Rightarrow> nat \<Rightarrow> nat \<Rightarrow> byte list option" where
  "eeprom_read e w addr len =
     (if i2c w \<and> eeprom_addr w \<noteq> None then
        (if addr div 256 > 255 then None
         else if \<not> bus_ok e then None
         else Some (take len (drop addr (eeprom_mem w))))
      else None)"

fun write_bytes :: "byte list \<Rightarrow> nat \<Rightarrow> byte list \<Rightarrow> byte list" where
  "write_bytes mem a [] = mem"
| "write_bytes mem a (b # bs) = write_bytes (mem[a := b]) (Suc a) bs"

function eeprom_write_chunks :: "nat \<Rightarrow> byte list \<Rightarrow> nat \<Rightarrow> byte list \<Rightarrow> byte list" where
  "eeprom_write_chunks addr payload offset mem =
     (if offset < length payload then
        (let page_off = (addr + offset) mod EEPROM_PAGE_SIZE;
             chunk = min (EEPROM_PAGE_SIZE - page_off) (length payload - offset)
         in eeprom_write_chunks addr payload (offset + chunk)
              (write_bytes mem ((addr + offset) mod 65536) (take chunk (drop offset payload))))
      else mem)"
  by pat_completeness auto
termination
  by (relation "measure (\<lambda>(addr, payload, offset, mem). length payload - offset)")
    (auto simp: EEPROM_PAGE_SIZE_def)

declare eeprom_write_chunks.simps [simp del]

definition eeprom_write :: "env \<Rightarrow> nat \<Rightarrow> byte list \<Rightarrow> world \<Rightarrow> bool \<times> world" where
  "eeprom_write e addr payload w =
     (if i2c w \<and> eeprom_addr w \<noteq> None then
        (if payload = [] then (True, w)
         else if \<not> bus_ok e then (False, w)
         else (True, w\<lparr>eeprom_mem := eeprom_write_chunks addr payload 0 (eeprom_mem w)\<rparr>))
      else (False, w))"

definition checksum16 :: "byte list \<Rightarrow> int" where
  "checksum16 data = foldl (\<lambda>tot b. (tot + uint b) AND 0xFFFF) 0 data"

definition get_schedule_checksum :: "env \<Rightarrow> int" where
  "get_schedule_checksum e =
     (case schedule_file e of
        None \<Rightarrow> 0
      | Some lines \<Rightarrow> checksum16 (map of_char (concat lines)))"

definition le_bytes :: "nat \<Rightarrow> int \<Rightarrow> byte list" where
  "le_bytes k v = map (\<lambda>i. word_of_int (drop_bit (8 * i) v)) [0..<k]"

definition le_int :: "byte list \<Rightarrow> int" where
  "le_int bs = foldr (\<lambda>b acc. uint b + 256 * acc) bs 0"

text \<open>\<open>ustruct.pack\<close> and \<open>ustruct.unpack\<close> for the format \<open><4sBBBBHIIH\<close>.\<close>

definition struct_pack ::
  "byte list \<Rightarrow> int \<Rightarrow> int \<Rightarrow> int \<Rightarrow> int \<Rightarrow> int \<Rightarrow> int \<Rightarrow> int \<Rightarrow> int \<Rightarrow> byte list" where
  "struct_pack magic version flags album track sched_sum sched_mtime week_sec crc =
     take 4 magic @ le_bytes 1 version @ le_bytes 1 flags @ le_bytes 1 album @ le_bytes 1 track
       @ le_bytes 2 sched_sum @ le_bytes 4 sched_mtime @ le_bytes 4 week_sec @ le_bytes 2 crc"

record saved =
  saved_flags :: int
  saved_album :: int
  saved_track :: int
  saved_schedule_checksum :: int
  saved_schedule_mtime :: int
  saved_week_seconds :: int

definition eeprom_load_state :: "env \<Rightarrow> world \<Rightarrow> saved option" where
  "eeprom_load_state e w =
     (if i2c w \<and> eeprom_addr w \<noteq> None then
        (case eeprom_read e w EEPROM_STATE_ADDR EEPROM_STRUCT_LEN of
           None \<Rightarrow> None
         | Some raw \<Rightarrow>
             if raw = [] \<or> length raw \<noteq> EEPROM_STRUCT_LEN then None
             else if take 4 raw \<noteq> EEPROM_MAGIC then None
             else if le_int (take 1 (drop 4 raw)) \<noteq> EEPROM_VERSION then None
             else if checksum16 (take (length raw - 2) raw) \<noteq> le_int (take 2 (drop 18 raw)) then None
             else Some \<lparr>saved_flags = le_int (take 1 (drop 5 raw)),
                        saved_album = le_int (take 1 (drop 6 raw)),
                        saved_track = le_int (take 1 (drop 7 raw)),
                        saved_schedule_checksum = le_int (take 2 (drop 8 raw)),
                        saved_schedule_mtime = le_int (take 4 (drop 10 raw)),
                        saved_week_seconds = le_int (take 4 (drop 14 raw))\<rparr>)
      else None)"

definition eeprom_payload :: "int \<Rightarrow> int \<Rightarrow> int \<Rightarrow> int \<Rightarrow> int \<Rightarrow> int \<Rightarrow> byte list" where
  "eeprom_payload flags album track sched_sum sched_mtime week_sec =
     (let payload = struct_pack EEPROM_MAGIC EEPROM_VERSION (flags AND 0xFF) (album AND 0xFF)
                      (track AND 0xFF) (sched_sum AND 0xFFFF) (sched_mtime AND 0xFFFFFFFF)
                      (week_sec AND 0xFFFFFFFF) 0;
          crc = checksum16 (take (length payload - 2) payload)
      in take (length payload - 2) payload @ le_bytes 2 crc)"

definition eeprom_save_state :: "env \<Rightarrow> int \<Rightarrow> int \<Rightarrow> int \<Rightarrow> world \<Rightarrow> py_error + bool \<times> world" where
  "eeprom_save_state e flags album track w =
     (if i2c w \<and> eeprom_addr w \<noteq> None then
        (let now = ticks_ms e
         in if last_eeprom_save_ms w \<noteq> 0 \<and> ticks_diff now (last_eeprom_save_ms w) < EEPROM_SAVE_MIN_MS
            then Inr (False, w)
            else
              (case (case rtc_read_datetime e w of
                       None \<Rightarrow> Inr 0
                     | Some dt \<Rightarrow> seconds_into_week dt) of
                 Inl err \<Rightarrow> Inl err
               | Inr week_sec \<Rightarrow>
                   (case eeprom_write e EEPROM_STATE_ADDR
                           (eeprom_payload flags album track (get_schedule_checksum e)
                              (schedule_mtime e) week_sec) w of
                      (True, w') \<Rightarrow> Inr (True, w'\<lparr>last_eeprom_save_ms := now\<rparr>)
                    | (False, w') \<Rightarrow> Inr (False, w'))))
      else Inr (False, w))"

subsection \<open>Primary store: album_state.txt\<close>

definition save_state :: "env \<Rightarrow> world \<Rightarrow> world" where
  "save_state e w =
     (let track_str = join '','' (map (\<lambda>(a, c). str_int a @ '':'' @ str_int c) (sort (KNOWN_TRACKS w)));
          payload = str_int (current_album w) @ '','' @ str_int (current_track w)
                      @ '';tracks='' @ track_str;
          w1 = w\<lparr>album_file := Some payload\<rparr>
      in case eeprom_save_state e (eeprom_flags w1) (current_album w1) (current_track w1) w1 of
           Inl err \<Rightarrow> w1
         | Inr (ok, w2) \<Rightarrow> w2)"

fun load_pairs :: "string list \<Rightarrow> (int \<times> int) list \<Rightarrow> (int \<times> int) list option" where
  "load_pairs [] known = Some known"
| "load_pairs (pair # rest) known =
     (if pair = [] then load_pairs rest known
      else (case split (CHR '':'') pair of
              [a, c] \<Rightarrow>
                (case py_int c of
                   None \<Rightarrow> None
                 | Some cv \<Rightarrow>
                     (case py_int a of
                        None \<Rightarrow> None
                      | Some av \<Rightarrow> load_pairs rest (AList.update av cv known)))
            | _ \<Rightarrow> None))"

text \<open>The body of \<open>load_state\<close>'s \<open>try\<close>; \<open>None\<close> is any exception it raises.\<close>

definition parse_state :: "string \<Rightarrow> (int \<times> int \<times> (int \<times> int) list) option" where
  "parse_state content =
     (case split (CHR '';'') (strip content) of
        [] \<Rightarrow> None
      | p0 # ps \<Rightarrow>
          (case split (CHR '','') p0 of
             [a_str, t_str] \<Rightarrow>
               (case py_int a_str of
                  None \<Rightarrow> None
                | Some a \<Rightarrow>
                    (case py_int t_str of
                       None \<Rightarrow> None
                     | Some t \<Rightarrow>
                         (case ps of
                            [] \<Rightarrow> Some (a, t, [])
                          | p1 # _ \<Rightarrow>
                              if take 7 p1 = ''tracks='' then
                                (if drop 7 p1 \<noteq> [] then
                                   (case load_pairs (split (CHR '','') (drop 7 p1)) [] of
                                      None \<Rightarrow> None
                                    | Some known \<Rightarrow> Some (a, t, known))
                                 else Some (a, t, []))
                              else Some (a, t, []))))
           | _ \<Rightarrow> None))"

definition load_state :: "world \<Rightarrow> bool \<times> world" where
  "load_state w =
     (case (case album_file w of None \<Rightarrow> None | Some content \<Rightarrow> parse_state content) of
        Some (a, t, known) \<Rightarrow>
          (True, w\<lparr>current_album := a, current_track := t, KNOWN_TRACKS := known\<rparr>)
      | None \<Rightarrow>
          (False, w\<lparr>current_album := 1, current_track := 1, KNOWN_TRACKS := []\<rparr>))"

subsection \<open>Schedule alignment of the playback position\<close>

definition align_to_time :: "env \<Rightarrow> world \<Rightarrow> py_error + bool \<times> world" where
  "align_to_time e w =
     (case rtc_read_datetime e w of
        None \<Rightarrow> Inr (False, w)
      | Some dt \<Rightarrow>
          (case seconds_into_week dt of
             Inl err \<Rightarrow> Inl err
           | Inr target \<Rightarrow>
               (case find_track_for_time e target of
                  (None, counts, tot) \<Rightarrow> Inr (False, w)
                | (Some (folder, track), counts, tot) \<Rightarrow>
                    Inr (True,
                         save_state e
                           (w\<lparr>current_album := folder, current_track := track,
                              KNOWN_TRACKS := (if counts \<noteq> [] then counts else KNOWN_TRACKS w)\<rparr>)))))"

subsection \<open>Setting the RTC at boot\<close>

definition int_to_bcd :: "int \<Rightarrow> int" where
  "int_to_bcd v = push_bit 4 (v div 10) OR (v mod 10)"

definition rtc_write_datetime :: "env \<Rightarrow> datetime \<Rightarrow> world \<Rightarrow> py_error + bool" where
  "rtc_write_datetime e dt w =
     (if \<not> i2c w then Inr False
      else (case dt of (year, month, day, hour, minute, second) \<Rightarrow>
        if \<not> (2000 \<le> year \<and> year \<le> 2099) then Inr False
        else (case iso_weekday year month day of
                Inl err \<Rightarrow> Inl err
              | Inr dow \<Rightarrow>
                  if list_all (\<lambda>b. 0 \<le> b \<and> b \<le> 255)
                       (map int_to_bcd [second, minute, hour, dow, day, month, year - 2000])
                  then Inr (bus_ok e) else Inl ValueError)))"

text \<open>The range checks of \<open>parse_datetime_line\<close> on the numbers read from the line.\<close>

definition parse_datetime_line :: "datetime option \<Rightarrow> datetime option" where
  "parse_datetime_line nums =
     (case nums of
        None \<Rightarrow> None
      | Some (year, month, day, hour, minute, second) \<Rightarrow>
          if \<not> (2000 \<le> year \<and> year \<le> 2099) then None
          else if \<not> (1 \<le> month \<and> month \<le> 12 \<and> 1 \<le> day \<and> day \<le> 31) then None
          else if \<not> (0 \<le> hour \<and> hour \<le> 23 \<and> 0 \<le> minute \<and> minute \<le> 59
                      \<and> 0 \<le> second \<and> second \<le> 59) then None
          else Some (year, month, day, hour, minute, second))"

text \<open>
  The three places of \<open>maybe_set_rtc\<close> that follow a successful write of the clock:
  set the flag bit, save to the EEPROM, return True.
\<close>

definition mark_rtc_set :: "env \<Rightarrow> world \<Rightarrow> py_error + bool \<times> world" where
  "mark_rtc_set e w =
     (let w1 = w\<lparr>eeprom_flags := eeprom_flags w OR EEPROM_FLAG_RTC_SET\<rparr>
      in case eeprom_save_state e (eeprom_flags w1) (current_album w1) (current_track w1) w1 of
           Inl err \<Rightarrow> Inl err
         | Inr (ok, w2) \<Rightarrow> Inr (True, w2))"

definition maybe_set_rtc :: "env \<Rightarrow> bool \<Rightarrow> world \<Rightarrow> py_error + bool \<times> world" where
  "maybe_set_rtc e force_serial w =
     (if \<not> i2c w then Inr (False, w)
      else
        (case (case (if RTC_FORCE_BOOTSTRAP then RTC_BOOTSTRAP_TIME else None) of
                 None \<Rightarrow> Inr False
               | Some bt \<Rightarrow> rtc_write_datetime e bt w) of
           Inl err \<Rightarrow> Inl err
         | Inr True \<Rightarrow> mark_rtc_set e w
         | Inr False \<Rightarrow>
             (let osf = rtc_osf_set e w
              in case (if osf then (case RTC_BOOTSTRAP_TIME of
                                      None \<Rightarrow> Inr False
                                    | Some bt \<Rightarrow> rtc_write_datetime e bt w)
                       else Inr False) of
                   Inl err \<Rightarrow> Inl err
                 | Inr True \<Rightarrow> mark_rtc_set e w
                 | Inr False \<Rightarrow>
                     if RTC_SERIAL_SET_MS > 0 \<and> (force_serial \<or> osf) then
                       (case parse_datetime_line (serial_fields e) of
                          None \<Rightarrow> Inr (False, w)
                        | Some dt \<Rightarrow>
                            (case rtc_write_datetime e dt w of
                               Inl err \<Rightarrow> Inl err
                             | Inr True \<Rightarrow> mark_rtc_set e w
                             | Inr False \<Rightarrow> Inr (False, w)))
                     else Inr (False, w))))"

subsection \<open>Boot: reconciling the two stores and the schedule\<close>

text \<open>
  The module's boot code from \<open>load_state()\<close> up to, and not including, the start
  sequence. \<open>e_rtc\<close>, \<open>e_align\<close> and \<open>e_load\<close> are what the hardware answers while the
  clock is set, while the position is aligned and while the EEPROM record is loaded;
  \<open>force_serial\<close> is \<open>button.value() == 0\<close>.
\<close>

definition boot_reconcile :: "env \<Rightarrow> env \<Rightarrow> env \<Rightarrow> bool \<Rightarrow> world \<Rightarrow> py_error + world" where
  "boot_reconcile e_rtc e_align e_load force_serial w0 =
     (case load_state w0 of
        (loaded_file, w1) \<Rightarrow>
          (case (case rtc_init e_rtc w1 of
                   (True, w2) \<Rightarrow>
                     (case maybe_set_rtc e_rtc force_serial w2 of
                        Inl err \<Rightarrow> Inl err
                      | Inr (was_set, w3) \<Rightarrow>
                          (case align_to_time e_align w3 of
                             Inl err \<Rightarrow> Inl err
                           | Inr (aligned, w4) \<Rightarrow> Inr w4))
                 | (False, w2) \<Rightarrow> Inr w2) of
             Inl err \<Rightarrow> Inl err
           | Inr w5 \<Rightarrow>
               (case eeprom_load_state e_load w5 of
                  None \<Rightarrow> Inr w5
                | Some sv \<Rightarrow>
                    (let w6 = w5\<lparr>eeprom_flags := saved_flags sv AND 0xFF\<rparr>
                     in if \<not> loaded_file
                        then Inr (w6\<lparr>current_album := max 1 (saved_album sv),
                                     current_track := max 1 (saved_track sv)\<rparr>)
                        else Inr w6))))"

text \<open>The module globals as they are initialised, with the two stores as found.\<close>

definition initial_world :: "string option \<Rightarrow> byte list \<Rightarrow> world" where
  "initial_world file mem =
     \<lparr>current_album = 1, current_track = 1, KNOWN_TRACKS = [], ignore_busy_until = 0,
      i2c = False, eeprom_addr = None, last_eeprom_save_ms = 0, eeprom_flags = 0,
      album_file = file, eeprom_mem = mem, uart_tx = []\<rparr>"

subsection \<open>Confirmed playback and navigation\<close>

definition note_track_learned :: "env \<Rightarrow> int \<Rightarrow> int \<Rightarrow> world \<Rightarrow> world" where
  "note_track_learned e album track w =
     (let prev = dict_get (KNOWN_TRACKS w) album 0
      in if track > prev
         then save_state e (w\<lparr>KNOWN_TRACKS := AList.update album track (KNOWN_TRACKS w)\<rparr>)
         else w)"

text \<open>
  \<open>busy\<close> is the result of \<open>wait_for_busy_low()\<close>: whether the decoder pulled BUSY
  low within the confirm window.
\<close>

definition play_current :: "env \<Rightarrow> bool \<Rightarrow> world \<Rightarrow> bool \<times> world" where
  "play_current e busy w =
     (let w1 = df_stop w;
          w2 = df_play_folder_track (current_album w1) (current_track w1) w1
      in if busy then
           (let w3 = note_track_learned e (current_album w2) (current_track w2) w2
            in (True, w3\<lparr>ignore_busy_until := ticks_add (ticks_ms e) 2000\<rparr>))
         else (False, w2))"

text \<open>
  The branches of the main loop that change the position. \<open>busy1\<close> and \<open>busy2\<close>
  are the BUSY answers to the first and, where there is one, the second play
  attempt of the branch.
\<close>

definition long_press :: "env \<Rightarrow> bool \<Rightarrow> bool \<Rightarrow> world \<Rightarrow> world" where
  "long_press e busy1 busy2 w =
     (let candidate = (if current_album w + 1 > MAX_ALBUM_NUM then 1 else current_album w + 1);
          w1 = save_state e (w\<lparr>current_album := candidate, current_track := 1\<rparr>)
      in case play_current e busy1 w1 of
           (True, w2) \<Rightarrow> w2
         | (False, w2) \<Rightarrow>
             snd (play_current e busy2 (save_state e (w2\<lparr>current_album := 1, current_track := 1\<rparr>))))"

definition decide_taps :: "env \<Rightarrow> int \<Rightarrow> bool \<Rightarrow> bool \<Rightarrow> world \<Rightarrow> world" where
  "decide_taps e tap_count busy1 busy2 w =
     (if tap_count > 0 then
        (let max_known = dict_get (KNOWN_TRACKS w) (current_album w) (max (current_track w) 1)
         in if tap_count \<ge> 3 then
              snd (play_current e busy1 (save_state e (w\<lparr>current_track := 1\<rparr>)))
            else if tap_count = 2 then
              (let max_known2 = (if max_known < 1 then 1 else max_known);
                   t = current_track w - 1
               in snd (play_current e busy1
                         (save_state e (w\<lparr>current_track := (if t < 1 then max_known2 else t)\<rparr>))))
            else
              (let candidate = current_track w + 1
               in if candidate \<le> max_known then
                    snd (play_current e busy1 (save_state e (w\<lparr>current_track := candidate\<rparr>)))
                  else
                    (case play_current e busy1 (w\<lparr>current_track := candidate\<rparr>) of
                       (False, w2) \<Rightarrow>
                         snd (play_current e busy2 (save_state e (w2\<lparr>current_track := 1\<rparr>)))
                     | (True, w2) \<Rightarrow> save_state e w2)))
      else w)"

definition auto_advance :: "env \<Rightarrow> bool \<Rightarrow> bool \<Rightarrow> world \<Rightarrow> world" where
  "auto_advance e busy1 busy2 w =
     (let max_known = dict_get (KNOWN_TRACKS w) (current_album w) (max (current_track w) 1);
          candidate = current_track w + 1
      in if candidate \<le> max_known then
           snd (play_current e busy1 (save_state e (w\<lparr>current_track := candidate\<rparr>)))
         else
           (case play_current e busy1 (w\<lparr>current_track := candidate\<rparr>) of
              (False, w2) \<Rightarrow>
                snd (play_current e busy2 (save_state e (w2\<lparr>current_track := 1\<rparr>)))
            | (True, w2) \<Rightarrow> save_state e w2))"

datatype nav_event =
    LongPress bool bool
  | Taps int bool bool
  | BusyFinished bool bool

fun nav_step :: "env \<times> nav_event \<Rightarrow> world \<Rightarrow> world" where
  "nav_step (e, LongPress busy1 busy2) w = long_press e busy1 busy2 w"
| "nav_step (e, Taps tap_count busy1 busy2) w = decide_taps e tap_count busy1 busy2 w"
| "nav_step (e, BusyFinished busy1 busy2) w = auto_advance e busy1 busy2 w"

definition nav_run :: "(env \<times> nav_event) list \<Rightarrow> world \<Rightarrow> world" where
  "nav_run evs w = fold nav_step evs w"

subsection \<open>Audio sample engine\<close>

record cursor =
  st_idx :: int
  st_n :: int
  st_done :: bool
  st_fade_out_samples :: int

text \<open>\<open>scale = int(256 * VOLUME)\<close> with \<open>VOLUME = 1.0\<close>.\<close>

definition scale :: int where "scale = 256"

definition lut_of :: "int \<Rightarrow> int list" where
  "lut_of sc = map (\<lambda>i. max 0 (min 65535 (MID + (i - 128) * sc))) [0..255]"

definition lut :: "int list" where "lut = lut_of scale"

text \<open>
  The state dict of \<open>play_am_and_fade_df_confirming\<close>; \<open>fo\<close> is
  \<open>int(SR * fade_out_s)\<close>.
\<close>

definition arm :: "byte list \<Rightarrow> int \<Rightarrow> cursor" where
  "arm data fo =
     \<lparr>st_idx = 0, st_n = int (length data), st_done = False,
      st_fade_out_samples = (if fo > int (length data) then int (length data) else fo)\<rparr>"

text \<open>One invocation of the timer callback: the duty written to the PWM and the new state.\<close>

definition isr_cb :: "byte list \<Rightarrow> cursor \<Rightarrow> py_error + int \<times> cursor" where
  "isr_cb data st =
     (let idx = st_idx st; n = st_n st
      in if idx \<ge> n then Inr (MID, st\<lparr>st_done := True\<rparr>)
         else
           (case py_index data idx of
              Inl err \<Rightarrow> Inl err
            | Inr sample \<Rightarrow>
                (case py_index lut (uint sample) of
                   Inl err \<Rightarrow> Inl err
                 | Inr raw_duty \<Rightarrow>
                     (let fo2 = st_fade_out_samples st;
                          duty =
                            (if fo2 > 0 \<and> idx \<ge> n - fo2 then
                               (let into = idx - (n - fo2);
                                    remaining = fo2 - into;
                                    remaining2 = (if remaining < 0 then 0 else remaining);
                                    scale_val = (remaining2 * 256) div fo2
                                in MID + ((raw_duty - MID) * scale_val) div 256)
                             else raw_duty)
                      in Inr (duty, st\<lparr>st_idx := idx + 1\<rparr>)))))"

fun isr_run :: "nat \<Rightarrow> byte list \<Rightarrow> cursor \<Rightarrow> py_error + int list \<times> cursor" where
  "isr_run 0 data st = Inr ([], st)"
| "isr_run (Suc k) data st =
     (case isr_cb data st of
        Inl err \<Rightarrow> Inl err
      | Inr (duty, st') \<Rightarrow>
          (case isr_run k data st' of
             Inl err \<Rightarrow> Inl err
           | Inr (duties, st'') \<Rightarrow> Inr (duty # duties, st'')))"

subsection \<open>Notions used to state the properties\<close>

text \<open>
  The total duration that \<open>scan_schedule\<close> accumulates over the valid entries of
  the schedule; it is the same for every target (lemma \<open>scan_schedule_total\<close>).
\<close>

definition schedule_total :: "env \<Rightarrow> int" where
  "schedule_total e = snd (snd (scan_schedule e 0))"

text \<open>
  The month of an RTC reading is an index that \<open>iso_weekday\<close>'s table of twelve
  entries accepts: \<open>t[month - 1]\<close> is defined for the months 1 to 12 and, counted
  from the end, for 0 down to -11.
\<close>

definition month_in_table :: "datetime \<Rightarrow> bool" where
  "month_in_table dt =
     (case dt of (year, month, day, hour, minute, second) \<Rightarrow> - 11 \<le> month \<and> month \<le> 12)"

subsection \<open>Example inputs\<close>

text \<open>
  A schedule of two entries (10 s and 20 s, with a comment line and a line for a
  folder out of range), read on Monday 2024-01-01 at 00:00:12.
\<close>

definition example_env :: env where
  "example_env =
     \<lparr>ticks_ms = 1000, bus_ok = True, rtc_time = (2024, 1, 1, 0, 0, 12),
      schedule_file = Some [''# week'' @ [CHR 0x0A], ''3,7,10'' @ [CHR 0x0A],
                            ''100,1,50'' @ [CHR 0x0A], ''3, 8, 0:20 # late'' @ [CHR 0x0A]],
      schedule_mtime = 0, i2c_scan = Some [0x57, 0x68], rtc_osf = False,
      serial_fields = None\<rparr>"

text \<open>The same hardware with a schedule file that has no valid entry.\<close>

definition empty_schedule_env :: env where
  "empty_schedule_env =
     example_env\<lparr>schedule_file := Some [''# nothing yet'' @ [CHR 0x0A], ''3,7,0'' @ [CHR 0x0A]]\<rparr>"

text \<open>The empty schedule again, read while the RTC's month register decodes to 13.\<close>

definition month_13_env :: env where
  "month_13_env = empty_schedule_env\<lparr>rtc_time := (2024, 13, 1, 0, 0, 12)\<rparr>"

text \<open>A running firmware: album 3, track 5, five tracks known, RTC and EEPROM found.\<close>

definition example_world :: world where
  "example_world =
     \<lparr>current_album = 3, current_track = 5, KNOWN_TRACKS = [(3, 5)], ignore_busy_until = 0,
      i2c = True, eeprom_addr = Some 0x57, last_eeprom_save_ms = 0, eeprom_flags = 0,
      album_file = None, eeprom_mem = replicate 32 0xFF, uart_tx = []\<rparr>"

text \<open>
  The property of the duty written to the PWM at the \<open>j\<close>-th
  invocation after arming: it is a 16-bit duty; past the end of the asset it is the
  midpoint; before, it lies between the midpoint and the table value of sample \<open>j\<close>.
\<close>

definition duty_ok :: "byte list \<Rightarrow> nat \<Rightarrow> int \<Rightarrow> bool" where
  "duty_ok data j duty =
     (0 \<le> duty \<and> duty \<le> 65535 \<and>
      (if j \<ge> length data then duty = MID
       else min MID (lut ! unat (data ! j)) \<le> duty \<and> duty \<le> max MID (lut ! unat (data ! j))))"

text \<open>Four samples: the lowest, the midpoint, the highest and a low one.\<close>

definition example_samples :: "byte list" where
  "example_samples = [0x00, 0x80, 0xFF, 0x10]"

text \<open>
  That firmware after \<open>eeprom_save_state(1, 3, 5)\<close> has written its record at
  tick 1000: magic, version 1, flags 1, album 3, track 5, the schedule's checksum
  2193, mtime 0, week second 12, and the crc 469.
\<close>

definition example_saved_world :: world where
  "example_saved_world =
     example_world
       \<lparr>eeprom_mem := [79, 84, 82, 49, 1, 1, 3, 5, 145, 8, 0, 0, 0, 0, 12, 0, 0, 0, 213, 1]
                        @ replicate 12 0xFF,
        last_eeprom_save_ms := 1000\<rparr>"

section \<open>Properties\<close>

subsection \<open>Bit masks as remainders\<close>

lemma and_ffff: "(x::int) AND 0xFFFF = x mod 65536"
proof -
  have "(x::int) AND mask 16 = x mod 2 ^ 16"
    by (simp only: take_bit_eq_mask [symmetric] take_bit_eq_mod)
  then show ?thesis by (simp add: mask_eq_exp_minus_1)
qed

lemma and_ff: "(x::int) AND 0xFF = x mod 256"
proof -
  have "(x::int) AND mask 8 = x mod 2 ^ 8"
    by (simp only: take_bit_eq_mask [symmetric] take_bit_eq_mod)
  then show ?thesis by (simp add: mask_eq_exp_minus_1)
qed

subsection \<open>Decoder frame\<close>

text \<open>
  C5: the frame that PLAY(folder=3, track=7) puts on the UART is the ten bytes
  7E FF 06 0F 00 03 07 FE E2 EF; for every command, the frame has ten bytes, and
  bytes 7 and 8 are, high byte first, the two's complement modulo 65536 of the sum
  of bytes 1 to 6.
\<close>

theorem df_play_frame_3_7:
  "uart_tx (df_play_folder_track 3 7 w)
     = uart_tx w @ [[0x7E, 0xFF, 0x06, 0x0F, 0x00, 0x03, 0x07, 0xFE, 0xE2, 0xEF]]
   \<and> (0xFE * 256 + 0xE2 :: int) = (- (0xFF + 0x06 + 0x0F + 0x00 + 0x03 + 0x07)) mod 65536
   \<and> length (df_frame cmd p1 p2) = 10
   \<and> df_frame cmd p1 p2 ! 7 * 256 + df_frame cmd p1 p2 ! 8
        = (- sum_list (take 6 (drop 1 (df_frame cmd p1 p2)))) mod 65536"
  by (simp add: df_play_folder_track_def df_send_def df_frame_def Let_def and_ffff and_ff
      drop_bit_eq_div)

text \<open>The bytes FF D2 are not the checksum of that frame.\<close>

theorem df_play_frame_3_7_not_ffd2:
  "uart_tx (df_play_folder_track 3 7 (initial_world None []))
     \<noteq> [[0x7E, 0xFF, 0x06, 0x0F, 0x00, 0x03, 0x07, 0xFF, 0xD2, 0xEF]]"
  by (simp add: df_play_folder_track_def df_send_def df_frame_def initial_world_def)

subsection \<open>Schedule aligner\<close>

lemma parse_schedule_line_duration_pos: "parse_schedule_line l = Some (f, t, d) \<Longrightarrow> 0 < d"
  unfolding parse_schedule_line_def Let_def
  by (auto split: if_splits list.splits option.splits)

lemma scan_lines_found_kept: "fst (scan_lines S ls (Some x, c, tot)) = Some x"
  by (induction ls arbitrary: c tot) (auto split: option.splits)

lemma scan_lines_snd_indep:
  "snd (scan_lines S ls (f, c, tot)) = snd (scan_lines S' ls (f', c, tot))"
proof (induction ls arbitrary: f f' c tot)
  case Nil
  show ?case by simp
next
  case (Cons l ls)
  show ?case
  proof (cases "parse_schedule_line l")
    case None
    then show ?thesis using Cons.IH by simp
  next
    case (Some a)
    obtain fo tr d where a: "a = (fo, tr, d)" by (cases a)
    show ?thesis using Some a Cons.IH by simp
  qed
qed

lemma scan_lines_total_mono: "tot \<le> snd (snd (scan_lines S ls (f, c, tot)))"
proof (induction ls arbitrary: f c tot)
  case Nil
  show ?case by simp
next
  case (Cons l ls)
  show ?case
  proof (cases "parse_schedule_line l")
    case None
    then show ?thesis using Cons.IH by simp
  next
    case (Some a)
    obtain fo tr d where a: "a = (fo, tr, d)" by (cases a)
    have d: "0 < d" using Some a parse_schedule_line_duration_pos by blast
    show ?thesis
    proof (cases "fo > MAX_ALBUM_NUM")
      case True
      then show ?thesis using Some a Cons.IH by simp
    next
      case False
      have "tot + d \<le> snd (snd (scan_lines S ls
              (if f = None \<and> S < tot + d then Some (fo, tr) else f,
               if tr > dict_get c fo 0 then AList.update fo tr c else c, tot + d)))"
        by (rule Cons.IH)
      then show ?thesis using Some a False d by simp
    qed
  qed
qed

lemma scan_lines_none_past_total:
  "snd (snd (scan_lines S ls (None, c, tot))) \<le> S \<Longrightarrow> fst (scan_lines S ls (None, c, tot)) = None"
proof (induction ls arbitrary: c tot)
  case Nil
  show ?case by simp
next
  case (Cons l ls)
  show ?case
  proof (cases "parse_schedule_line l")
    case None
    then show ?thesis using Cons by simp
  next
    case (Some a)
    obtain fo tr d where a: "a = (fo, tr, d)" by (cases a)
    show ?thesis
    proof (cases "fo > MAX_ALBUM_NUM")
      case True
      then show ?thesis using Some a Cons by simp
    next
      case False
      let ?c = "if tr > dict_get c fo 0 then AList.update fo tr c else c"
      have eq: "snd (scan_lines S (l # ls) (None, c, tot)) = snd (scan_lines S ls (None, ?c, tot + d))"
        using Some a False scan_lines_snd_indep [of S ls _ ?c "tot + d" S None] by simp
      have "tot + d \<le> snd (snd (scan_lines S ls (None, ?c, tot + d)))"
        by (rule scan_lines_total_mono)
      with Cons.prems eq have le: "tot + d \<le> S" by simp
      have "fst (scan_lines S ls (None, ?c, tot + d)) = None"
        using Cons.IH [of ?c "tot + d"] Cons.prems eq by simp
      then show ?thesis using Some a False le by simp
    qed
  qed
qed

lemma scan_lines_some_within_total:
  "tot \<le> S \<Longrightarrow> S < snd (snd (scan_lines S ls (None, c, tot))) \<Longrightarrow>
   fst (scan_lines S ls (None, c, tot)) \<noteq> None"
proof (induction ls arbitrary: c tot)
  case Nil
  then show ?case by simp
next
  case (Cons l ls)
  show ?case
  proof (cases "parse_schedule_line l")
    case None
    then show ?thesis using Cons by simp
  next
    case (Some a)
    obtain fo tr d where a: "a = (fo, tr, d)" by (cases a)
    show ?thesis
    proof (cases "fo > MAX_ALBUM_NUM")
      case True
      then show ?thesis using Some a Cons by simp
    next
      case False
      let ?c = "if tr > dict_get c fo 0 then AList.update fo tr c else c"
      show ?thesis
      proof (cases "S < tot + d")
        case True
        then show ?thesis using Some a False scan_lines_found_kept by simp
      next
        case ge: False
        have eq: "snd (scan_lines S (l # ls) (None, c, tot)) = snd (scan_lines S ls (None, ?c, tot + d))"
          using Some a False scan_lines_snd_indep [of S ls _ ?c "tot + d" S None] by simp
        have "fst (scan_lines S ls (None, ?c, tot + d)) \<noteq> None"
          using Cons.IH [of "tot + d" ?c] Cons.prems eq ge by simp
        then show ?thesis using Some a False ge by simp
      qed
    qed
  qed
qed

lemma scan_schedule_snd_indep: "snd (scan_schedule e S) = snd (scan_schedule e S')"
  unfolding scan_schedule_def
  by (cases "schedule_file e") (simp_all add: scan_lines_snd_indep [of S _ None "[]" 0 S' None])

lemma scan_schedule_total: "snd (snd (scan_schedule e S)) = schedule_total e"
  unfolding schedule_total_def using scan_schedule_snd_indep [of e S 0] by simp

lemma scan_schedule_found_iff:
  assumes "0 \<le> S"
  shows "fst (scan_schedule e S) = None \<longleftrightarrow> schedule_total e \<le> S"
proof (cases "schedule_file e")
  case None
  then show ?thesis using assms by (simp add: scan_schedule_def schedule_total_def)
next
  case (Some ls)
  have tot: "snd (snd (scan_lines S ls (None, [], 0))) = schedule_total e"
    using scan_schedule_total [of e S] Some by (simp add: scan_schedule_def)
  have fnd: "fst (scan_schedule e S) = fst (scan_lines S ls (None, [], 0))"
    using Some by (simp add: scan_schedule_def)
  show ?thesis
  proof
    assume "fst (scan_schedule e S) = None"
    then have "\<not> S < schedule_total e"
      using scan_lines_some_within_total [of 0 S ls "[]"] assms tot fnd by auto
    then show "schedule_total e \<le> S" by simp
  next
    assume "schedule_total e \<le> S"
    then show "fst (scan_schedule e S) = None"
      using scan_lines_none_past_total [of S ls "[]" 0] tot fnd by simp
  qed
qed

lemma find_track_for_time_wrapped:
  assumes "0 < schedule_total e" "0 \<le> S"
  shows "find_track_for_time e S
    = (fst (scan_schedule e (S mod schedule_total e)), fst (snd (scan_schedule e 0)), schedule_total e)"
proof -
  obtain f c t where sc: "scan_schedule e S = (f, c, t)" by (cases "scan_schedule e S")
  have t: "t = schedule_total e" using scan_schedule_total [of e S] sc by simp
  have c: "c = fst (snd (scan_schedule e 0))"
    using scan_schedule_snd_indep [of e S 0] sc by (metis fst_conv snd_conv)
  show ?thesis
  proof (cases "f = None")
    case True
    then show ?thesis using sc t c assms by (simp add: find_track_for_time_def)
  next
    case False
    then have "\<not> schedule_total e \<le> S" using scan_schedule_found_iff [of S e] assms sc by auto
    then have "S mod schedule_total e = S" using assms by simp
    then show ?thesis using sc t c assms False by (simp add: find_track_for_time_def)
  qed
qed

text \<open>
  C3: for a schedule whose valid entries have total duration \<open>T > 0\<close> and every
  target second \<open>S \<ge> 0\<close>, \<open>find_track_for_time\<close> returns the same result (the
  same match, and the same map and total) at \<open>S\<close> and at \<open>S + T\<close>.
\<close>

theorem find_track_for_time_periodic:
  assumes "schedule_total e = T" "0 < T" "0 \<le> S"
  shows "find_track_for_time e S = find_track_for_time e (S + T)"
  using assms find_track_for_time_wrapped [of e S] find_track_for_time_wrapped [of e "S + T"]
  by simp

lemma find_track_for_time_zero_total:
  "schedule_total e = 0 \<Longrightarrow> find_track_for_time e S = (None, [], 0)"
  using scan_schedule_total [of e S]
  by (cases "scan_schedule e S") (simp add: find_track_for_time_def)

lemma seconds_into_week_in_table:
  "month_in_table dt \<Longrightarrow> \<exists>t. seconds_into_week dt = Inr t"
  by (auto simp: month_in_table_def seconds_into_week_def iso_weekday_def py_index_def Let_def
      split: prod.splits)

text \<open>
  C8 (as amended): when the schedule's total duration is zero, and the RTC is not
  read or reports a month that indexes the weekday table, \<open>align_to_time\<close> returns
  False and leaves the whole state, \<open>current_album\<close>, \<open>current_track\<close> and
  \<open>KNOWN_TRACKS\<close> included, exactly as it was.
\<close>

theorem align_to_time_zero_total:
  assumes "schedule_total e = 0"
    and "rtc_read_datetime e w = None \<or> month_in_table (rtc_time e)"
  shows "align_to_time e w = Inr (False, w)"
proof (cases "rtc_read_datetime e w")
  case None
  then show ?thesis by (simp add: align_to_time_def)
next
  case (Some dt)
  then have "dt = rtc_time e" by (auto simp: rtc_read_datetime_def split: if_splits)
  moreover have "month_in_table (rtc_time e)" using assms(2) Some by simp
  ultimately have "month_in_table dt" by simp
  then obtain t where "seconds_into_week dt = Inr t"
    using seconds_into_week_in_table by blast
  then show ?thesis
    using Some find_track_for_time_zero_total [OF assms(1)] by (simp add: align_to_time_def)
qed

text \<open>
  C8 as first stated, with no condition on the RTC, fails: the schedule's total is
  zero, the RTC reports month 13, and \<open>align_to_time\<close> does not return False; the
  table lookup of \<open>iso_weekday\<close> raises IndexError before the schedule is read.
\<close>

theorem align_to_time_month_13_raises:
  "schedule_total month_13_env = 0
   \<and> align_to_time month_13_env example_world = Inl IndexError"
  by code_simp

theorem find_track_for_time_periodic_witness:
  "schedule_total example_env = 30 \<and> (0::int) < 30 \<and> (0::int) \<le> 12
   \<and> find_track_for_time example_env 12 = find_track_for_time example_env (12 + 30)
   \<and> fst (find_track_for_time example_env 12) = Some (3, 8)"
proof -
  have t: "schedule_total example_env = 30" by code_simp
  have "find_track_for_time example_env 12 = find_track_for_time example_env (12 + 30)"
    by (rule find_track_for_time_periodic [OF t]) simp_all
  moreover have "fst (find_track_for_time example_env 12) = Some (3, 8)" by code_simp
  ultimately show ?thesis using t by simp
qed

theorem align_to_time_zero_total_witness:
  "schedule_total empty_schedule_env = 0 \<and> month_in_table (rtc_time empty_schedule_env)
   \<and> rtc_read_datetime empty_schedule_env example_world = Some (2024, 1, 1, 0, 0, 12)
   \<and> align_to_time empty_schedule_env example_world = Inr (False, example_world)"
proof -
  have t: "schedule_total empty_schedule_env = 0" by code_simp
  have m: "month_in_table (rtc_time empty_schedule_env)" by code_simp
  have r: "rtc_read_datetime empty_schedule_env example_world = Some (2024, 1, 1, 0, 0, 12)"
    by code_simp
  have "align_to_time empty_schedule_env example_world = Inr (False, example_world)"
    by (rule align_to_time_zero_total [OF t]) (simp add: m)
  then show ?thesis using t m r by simp
qed

subsection \<open>Audio sample engine\<close>

lemma lut_of_length: "length (lut_of sc) = 256"
  by (simp add: lut_of_def)

lemma lut_of_nth:
  assumes "i < 256"
  shows "lut_of sc ! i = max 0 (min 65535 (MID + (int i - 128) * sc))"
proof -
  have "[0..255] ! i = 0 + int i" using assms by (intro nth_upto) simp
  then show ?thesis using assms by (simp add: lut_of_def)
qed

lemma lut_of_range: "i < 256 \<Longrightarrow> 0 \<le> lut_of sc ! i \<and> lut_of sc ! i \<le> 65535"
  by (simp add: lut_of_nth)

lemma py_index_lut: "py_index lut (uint (b :: byte)) = Inr (lut ! unat b)"
proof -
  have "uint b < 256" using uint_bounded [of b] by simp
  then show ?thesis by (simp add: py_index_def lut_def lut_of_length)
qed

lemma lut_byte_range: "0 \<le> lut ! unat (b :: byte) \<and> lut ! unat b \<le> 65535"
proof -
  have "unat b < 256" using unsigned_less [of b, where ?'a = nat] by simp
  then show ?thesis unfolding lut_def by (rule lut_of_range)
qed

lemma scaled_between:
  fixes x sv :: int
  assumes "0 \<le> sv" "sv \<le> 256"
  shows "min 0 x \<le> (x * sv) div 256 \<and> (x * sv) div 256 \<le> max 0 x"
proof (cases "0 \<le> x")
  case True
  have "x * sv \<le> x * 256" using True assms by (intro mult_left_mono) simp_all
  then have "(x * sv) div 256 \<le> (x * 256) div 256" by (intro zdiv_mono1) simp_all
  moreover have "0 \<le> x * sv" using True assms by simp
  then have "0 \<le> (x * sv) div 256" by (simp add: pos_imp_zdiv_nonneg_iff)
  ultimately show ?thesis using True by simp
next
  case False
  then have neg: "x \<le> 0" by simp
  have "x * 256 \<le> x * sv" using neg assms by (intro mult_left_mono_neg) simp_all
  then have "(x * 256) div 256 \<le> (x * sv) div 256" by (intro zdiv_mono1) simp_all
  moreover have "x * sv \<le> 0" using neg assms by (simp add: mult_nonpos_nonneg)
  then have "(x * sv) div 256 \<le> 0" by (simp add: div_nonpos_pos_le0)
  ultimately show ?thesis using neg by simp
qed

lemma fade_scale_range:
  fixes remaining fo2 :: int
  assumes "0 \<le> remaining" "remaining \<le> fo2" "0 < fo2"
  shows "0 \<le> (remaining * 256) div fo2 \<and> (remaining * 256) div fo2 \<le> 256"
proof -
  have "(remaining * 256) div fo2 \<le> (fo2 * 256) div fo2"
    using assms by (intro zdiv_mono1) simp_all
  moreover have "(fo2 * 256) div fo2 = 256" using assms by simp
  moreover have "0 \<le> (remaining * 256) div fo2" using assms by (simp add: pos_imp_zdiv_nonneg_iff)
  ultimately show ?thesis by simp
qed

lemma isr_cb_step:
  assumes "st_idx st = int j" "st_n st = int (length data)"
  shows "\<exists>duty. isr_cb data st =
           Inr (duty, if j \<ge> length data then st\<lparr>st_done := True\<rparr> else st\<lparr>st_idx := int j + 1\<rparr>)
         \<and> duty_ok data j duty"
proof (cases "j \<ge> length data")
  case True
  then show ?thesis using assms by (simp add: isr_cb_def duty_ok_def MID_def)
next
  case False
  then have lt: "j < length data" by simp
  let ?raw = "lut ! unat (data ! j)"
  have idx: "py_index data (int j) = Inr (data ! j)" using lt by (simp add: py_index_def)
  have raw: "0 \<le> ?raw \<and> ?raw \<le> 65535" by (rule lut_byte_range)
  let ?fo2 = "st_fade_out_samples st"
  show ?thesis
  proof (cases "?fo2 > 0 \<and> int j \<ge> int (length data) - ?fo2")
    case nofade: False
    then show ?thesis using assms lt idx raw
      by (auto simp add: isr_cb_def Let_def py_index_lut duty_ok_def)
  next
    case fade: True
    let ?remaining = "?fo2 - (int j - (int (length data) - ?fo2))"
    have rem: "0 \<le> ?remaining" "?remaining \<le> ?fo2" using fade lt by simp_all
    let ?sv = "(?remaining * 256) div ?fo2"
    have sv: "0 \<le> ?sv \<and> ?sv \<le> 256" using fade_scale_range [OF rem] fade by simp
    let ?duty = "MID + ((?raw - MID) * ?sv) div 256"
    have b: "min 0 (?raw - MID) \<le> ((?raw - MID) * ?sv) div 256
             \<and> ((?raw - MID) * ?sv) div 256 \<le> max 0 (?raw - MID)"
      using scaled_between [of ?sv "?raw - MID"] sv by simp
    have ok: "duty_ok data j ?duty"
      using b raw lt unfolding duty_ok_def MID_def by auto
    have "isr_cb data st = Inr (?duty, st\<lparr>st_idx := int j + 1\<rparr>)"
      using assms lt idx fade rem by (simp add: isr_cb_def Let_def py_index_lut)
    then show ?thesis using ok lt by auto
  qed
qed

lemma isr_run_from:
  assumes "st_idx st = int i" "st_n st = int (length data)"
  shows "\<exists>duties st'. isr_run k data st = Inr (duties, st') \<and> length duties = k
           \<and> (\<forall>j<k. duty_ok data ((i + j)) (duties ! j))"
  using assms
proof (induction k arbitrary: st i)
  case 0
  show ?case by simp
next
  case (Suc k)
  obtain duty where step: "isr_cb data st =
           Inr (duty, if i \<ge> length data then st\<lparr>st_done := True\<rparr> else st\<lparr>st_idx := int i + 1\<rparr>)"
    and ok: "duty_ok data i duty"
    using isr_cb_step [OF Suc.prems] by blast
  show ?case
  proof (cases "i \<ge> length data")
    case True
    let ?st1 = "st\<lparr>st_done := True\<rparr>"
    obtain duties st' where run: "isr_run k data ?st1 = Inr (duties, st')"
      and len: "length duties = k"
      and all: "\<forall>j<k. duty_ok data ((i + j)) (duties ! j)"
      using Suc.IH [of ?st1 i] Suc.prems by auto
    have "\<forall>j<Suc k. duty_ok data ((i + j)) ((duty # duties) ! j)"
    proof (intro allI impI)
      fix j assume "j < Suc k"
      show "duty_ok data ((i + j)) ((duty # duties) ! j)"
      proof (cases j)
        case 0
        then show ?thesis using ok by simp
      next
        case (Suc j')
        then have "j' < k" using \<open>j < Suc k\<close> by simp
        then have "duty_ok data ((i + j')) (duties ! j')" using all by blast
        then show ?thesis using Suc True by (simp add: duty_ok_def)
      qed
    qed
    then show ?thesis using step run len True by auto
  next
    case False
    let ?st1 = "st\<lparr>st_idx := int i + 1\<rparr>"
    have "st_idx ?st1 = int (Suc i)" by simp
    then obtain duties st' where run: "isr_run k data ?st1 = Inr (duties, st')"
      and len: "length duties = k"
      and all: "\<forall>j<k. duty_ok data ((Suc i + j)) (duties ! j)"
      using Suc.IH [of ?st1 "Suc i"] Suc.prems by auto
    have "\<forall>j<Suc k. duty_ok data ((i + j)) ((duty # duties) ! j)"
    proof (intro allI impI)
      fix j assume "j < Suc k"
      show "duty_ok data ((i + j)) ((duty # duties) ! j)"
      proof (cases j)
        case 0
        then show ?thesis using ok by simp
      next
        case (Suc j')
        then have "j' < k" using \<open>j < Suc k\<close> by simp
        then have "duty_ok data ((Suc i + j')) (duties ! j')"
          using all by blast
        then show ?thesis using Suc by simp
      qed
    qed
    then show ?thesis using step run len False by auto
  qed
qed


text \<open>
  C10: every duty the sample interrupt writes lies in 0..65535. The table is
  clamped to that range whatever the volume scale; after arming with any asset and
  any fade-out length, each of the first \<open>k\<close> invocations returns (no index
  error) and writes a duty in range, the midpoint once the asset is exhausted, and
  otherwise a value between the midpoint and the table value of the sample.
\<close>

theorem isr_duty_in_range:
  "(\<forall>i<256. 0 \<le> lut_of sc ! i \<and> lut_of sc ! i \<le> 65535)
   \<and> (\<exists>duties st'. isr_run k data (arm data fo) = Inr (duties, st') \<and> length duties = k
         \<and> (\<forall>j<k. duty_ok data j (duties ! j)))"
proof -
  have "st_idx (arm data fo) = int 0" "st_n (arm data fo) = int (length data)"
    by (simp_all add: arm_def)
  from isr_run_from [OF this, of k] show ?thesis by (simp add: lut_of_range)
qed

theorem isr_duty_in_range_witness:
  "lut_of 256 ! 255 = 65280
   \<and> isr_run 6 example_samples (arm example_samples 3)
       = Inr ([0, 32768, 54358, 23248, 32768, 32768],
              \<lparr>st_idx = 4, st_n = 4, st_done = True, st_fade_out_samples = 3\<rparr>)
   \<and> duty_ok example_samples 2 54358 \<and> duty_ok example_samples 5 32768"
proof -
  have run: "isr_run 6 example_samples (arm example_samples 3)
       = Inr ([0, 32768, 54358, 23248, 32768, 32768],
              \<lparr>st_idx = 4, st_n = 4, st_done = True, st_fade_out_samples = 3\<rparr>)"
    by code_simp
  have l: "lut_of 256 ! 255 = 65280" by code_simp
  from isr_duty_in_range [of 256 6 example_samples 3] run
  have every: "\<forall>j<6. duty_ok example_samples j ([0, 32768, 54358, 23248, 32768, 32768] ! j)"
    by auto
  have "duty_ok example_samples 2 54358 \<and> duty_ok example_samples 5 32768"
    using every [rule_format, of 2] every [rule_format, of 5] by simp
  then show ?thesis using run l by simp
qed

subsection \<open>Secondary store\<close>

lemma le_bytes_length: "length (le_bytes k v) = k"
  by (simp add: le_bytes_def)

lemma le_bytes_1: "le_bytes 1 v = [word_of_int v]"
  by (simp add: le_bytes_def)

lemma le_bytes_2: "le_bytes 2 v = [word_of_int v, word_of_int (v div 256)]"
proof -
  have "[0..<2] = [0, 1]" by (simp add: upt_rec)
  then show ?thesis by (simp add: le_bytes_def drop_bit_eq_div)
qed

lemma le_bytes_4:
  "le_bytes 4 v = [word_of_int v, word_of_int (v div 256), word_of_int (v div 65536),
                   word_of_int (v div 16777216)]"
proof -
  have "[0..<4] = [0, 1, 2, 3]" by (simp add: upt_rec)
  then show ?thesis by (simp add: le_bytes_def drop_bit_eq_div)
qed

lemma uint_byte_of_int: "uint (word_of_int v :: byte) = v mod 256"
  by (simp add: uint_word_of_int)

lemma le_int_le_bytes_1: "le_int (le_bytes 1 v) = v mod 256"
  by (simp only: le_bytes_1) (simp add: le_int_def uint_byte_of_int)

lemma le_int_le_bytes_2: "le_int (le_bytes 2 v) = v mod 65536"
proof -
  have "v mod 256 + 256 * (v div 256 mod 256) = v mod 65536"
    using zmod_zmult2_eq [of 256 v 256] by simp
  then show ?thesis by (simp add: le_bytes_2 le_int_def uint_byte_of_int)
qed

lemma le_step:
  fixes x N :: int
  assumes "0 < N"
  shows "x mod 256 + 256 * (x div 256 mod N) = x mod (256 * N)"
  using zmod_zmult2_eq [of N x 256] assms by (simp only: add.commute less_imp_le)

lemma le_int_le_bytes_4: "le_int (le_bytes 4 v) = v mod 4294967296"
proof -
  have d2: "v div 256 div 256 = v div 65536"
    using zdiv_zmult2_eq [of 256 v 256] by simp
  have d3: "v div 65536 div 256 = v div 16777216"
    using zdiv_zmult2_eq [of 256 v 65536] by simp
  have t2: "v div 65536 mod 256 + 256 * (v div 16777216 mod 256) = v div 65536 mod 65536"
    using le_step [of 256 "v div 65536"] by (simp only: d3) simp
  have t1: "v div 256 mod 256 + 256 * (v div 65536 mod 65536) = v div 256 mod 16777216"
    using le_step [of 65536 "v div 256"] by (simp only: d2) simp
  have t0: "v mod 256 + 256 * (v div 256 mod 16777216) = v mod 4294967296"
    using le_step [of 16777216 v] by simp
  have "le_int (le_bytes 4 v)
        = v mod 256 + 256 * (v div 256 mod 256 + 256 * (v div 65536 mod 256 + 256 * (v div 16777216 mod 256)))"
    by (simp only: le_bytes_4 le_int_def foldr.simps o_apply uint_byte_of_int) simp
  also have "\<dots> = v mod 4294967296" by (simp only: t2 t1 t0)
  finally show ?thesis .
qed

lemma and_ffffffff: "(x::int) AND 0xFFFFFFFF = x mod 4294967296"
proof -
  have "(x::int) AND mask 32 = x mod 2 ^ 32"
    by (simp only: take_bit_eq_mask [symmetric] take_bit_eq_mod)
  then show ?thesis by (simp add: mask_eq_exp_minus_1)
qed

lemma checksum16_foldl:
  "foldl (\<lambda>tot b. (tot + uint (b :: byte)) AND 0xFFFF) (a mod 65536) xs
     = (a + sum_list (map uint xs)) mod 65536"
proof (induction xs arbitrary: a)
  case Nil
  show ?case by simp
next
  case (Cons x xs)
  have "foldl (\<lambda>tot b. (tot + uint b) AND 0xFFFF) (a mod 65536) (x # xs)
        = foldl (\<lambda>tot b. (tot + uint b) AND 0xFFFF) ((a + uint x) mod 65536) xs"
    by (simp add: and_ffff mod_add_left_eq)
  also have "\<dots> = (a + uint x + sum_list (map uint xs)) mod 65536" by (rule Cons.IH)
  finally show ?case by (simp add: add.assoc)
qed

lemma checksum16_sum: "checksum16 xs = sum_list (map uint xs) mod 65536"
  using checksum16_foldl [of 0 xs] by (simp add: checksum16_def)

lemma sum_uint_bound: "0 \<le> sum_list (map uint (xs :: byte list)) \<and> sum_list (map uint xs) \<le> 255 * int (length xs)"
proof (induction xs)
  case Nil
  show ?case by simp
next
  case (Cons x xs)
  have "uint x < 256" using uint_bounded [of x] by simp
  then show ?case using Cons by simp
qed

lemma sum_uint_update:
  "i < length xs \<Longrightarrow>
   sum_list (map uint ((xs :: byte list)[i := b])) = sum_list (map uint xs) - uint (xs ! i) + uint b"
proof (induction xs arbitrary: i)
  case Nil
  then show ?case by simp
next
  case (Cons x xs)
  then show ?case by (cases i) simp_all
qed

lemma checksum16_update_differs:
  assumes "i < length xs" "length xs \<le> 18" "b \<noteq> xs ! i"
  shows "checksum16 (xs[i := b]) \<noteq> checksum16 xs"
proof -
  have s1: "0 \<le> sum_list (map uint xs) \<and> sum_list (map uint xs) < 65536"
    using sum_uint_bound [of xs] assms(2) by simp
  have s2: "0 \<le> sum_list (map uint (xs[i := b])) \<and> sum_list (map uint (xs[i := b])) < 65536"
    using sum_uint_bound [of "xs[i := b]"] assms(2) by simp
  have "uint b \<noteq> uint (xs ! i)" using assms(3) by (simp add: word_uint_eq_iff)
  then have "sum_list (map uint (xs[i := b])) \<noteq> sum_list (map uint xs)"
    using sum_uint_update [OF assms(1), of b] by simp
  then show ?thesis using s1 s2 by (simp add: checksum16_sum)
qed

lemma write_bytes_eq:
  "a + length bs \<le> length mem \<Longrightarrow> write_bytes mem a bs = take a mem @ bs @ drop (a + length bs) mem"
proof (induction bs arbitrary: mem a)
  case Nil
  show ?case by simp
next
  case (Cons b bs)
  have "write_bytes (mem[a := b]) (Suc a) bs
        = take (Suc a) (mem[a := b]) @ bs @ drop (Suc a + length bs) (mem[a := b])"
    using Cons.prems by (intro Cons.IH) simp
  moreover have "take (Suc a) (mem[a := b]) = take a mem @ [b]"
    using Cons.prems by (simp add: take_Suc_conv_app_nth)
  ultimately show ?case by simp
qed

lemma eeprom_write_chunks_one_page:
  assumes "0 < length p" "length p \<le> 32" "length p \<le> length mem"
  shows "eeprom_write_chunks 0 p 0 mem = p @ drop (length p) mem"
proof -
  have "eeprom_write_chunks 0 p 0 mem = eeprom_write_chunks 0 p (length p) (write_bytes mem 0 p)"
    using assms by (subst eeprom_write_chunks.simps) (simp add: EEPROM_PAGE_SIZE_def Let_def)
  also have "\<dots> = write_bytes mem 0 p"
    by (subst eeprom_write_chunks.simps) simp
  also have "\<dots> = p @ drop (length p) mem"
    using write_bytes_eq [of 0 p mem] assms by simp
  finally show ?thesis .
qed

lemma eeprom_payload_length: "length (eeprom_payload f a t s m wk) = 20"
  by (simp add: eeprom_payload_def struct_pack_def Let_def le_bytes_length EEPROM_MAGIC_def)

lemma checksum16_range: "checksum16 xs mod 65536 = checksum16 xs"
  by (simp add: checksum16_sum)

lemma eeprom_payload_split:
  "\<exists>body. length body = 18 \<and> take 4 body = EEPROM_MAGIC
     \<and> le_int (take 1 (drop 4 body)) = EEPROM_VERSION
     \<and> le_int (take 1 (drop 5 body)) = f AND 0xFF
     \<and> le_int (take 1 (drop 6 body)) = a AND 0xFF
     \<and> le_int (take 1 (drop 7 body)) = t AND 0xFF
     \<and> le_int (take 2 (drop 8 body)) = s AND 0xFFFF
     \<and> le_int (take 4 (drop 10 body)) = m AND 0xFFFFFFFF
     \<and> le_int (take 4 (drop 14 body)) = wk AND 0xFFFFFFFF
     \<and> eeprom_payload f a t s m wk = body @ le_bytes 2 (checksum16 body)"
proof -
  let ?body = "EEPROM_MAGIC @ le_bytes 1 EEPROM_VERSION @ le_bytes 1 (f AND 0xFF)
      @ le_bytes 1 (a AND 0xFF) @ le_bytes 1 (t AND 0xFF) @ le_bytes 2 (s AND 0xFFFF)
      @ le_bytes 4 (m AND 0xFFFFFFFF) @ le_bytes 4 (wk AND 0xFFFFFFFF)"
  have len: "length ?body = 18" by (simp add: le_bytes_length EEPROM_MAGIC_def)
  have magic: "take 4 ?body = EEPROM_MAGIC" by (simp add: EEPROM_MAGIC_def)
  have d4: "take 1 (drop 4 ?body) = le_bytes 1 EEPROM_VERSION"
    by (simp add: le_bytes_length EEPROM_MAGIC_def)
  have d5: "take 1 (drop 5 ?body) = le_bytes 1 (f AND 0xFF)"
    by (simp add: le_bytes_length EEPROM_MAGIC_def)
  have d6: "take 1 (drop 6 ?body) = le_bytes 1 (a AND 0xFF)"
    by (simp add: le_bytes_length EEPROM_MAGIC_def)
  have d7: "take 1 (drop 7 ?body) = le_bytes 1 (t AND 0xFF)"
    by (simp add: le_bytes_length EEPROM_MAGIC_def)
  have d8: "take 2 (drop 8 ?body) = le_bytes 2 (s AND 0xFFFF)"
    by (simp add: le_bytes_length EEPROM_MAGIC_def)
  have d10: "take 4 (drop 10 ?body) = le_bytes 4 (m AND 0xFFFFFFFF)"
    by (simp add: le_bytes_length EEPROM_MAGIC_def)
  have d14: "take 4 (drop 14 ?body) = le_bytes 4 (wk AND 0xFFFFFFFF)"
    by (simp add: le_bytes_length EEPROM_MAGIC_def)
  have pay: "eeprom_payload f a t s m wk = ?body @ le_bytes 2 (checksum16 ?body)"
    by (simp add: eeprom_payload_def struct_pack_def Let_def le_bytes_length EEPROM_MAGIC_def)
  have v1: "le_int (le_bytes 1 EEPROM_VERSION) = EEPROM_VERSION"
    by (simp only: le_int_le_bytes_1) (simp add: EEPROM_VERSION_def)
  have f4: "le_int (take 1 (drop 4 ?body)) = EEPROM_VERSION"
    by (simp only: d4 v1)
  have f5: "le_int (take 1 (drop 5 ?body)) = f AND 0xFF"
    unfolding d5 by (simp only: le_int_le_bytes_1 and_ff mod_mod_trivial)
  have f6: "le_int (take 1 (drop 6 ?body)) = a AND 0xFF"
    unfolding d6 by (simp only: le_int_le_bytes_1 and_ff mod_mod_trivial)
  have f7: "le_int (take 1 (drop 7 ?body)) = t AND 0xFF"
    unfolding d7 by (simp only: le_int_le_bytes_1 and_ff mod_mod_trivial)
  have f8: "le_int (take 2 (drop 8 ?body)) = s AND 0xFFFF"
    unfolding d8 by (simp only: le_int_le_bytes_2 and_ffff mod_mod_trivial)
  have f10: "le_int (take 4 (drop 10 ?body)) = m AND 0xFFFFFFFF"
    unfolding d10 by (simp only: le_int_le_bytes_4 and_ffffffff mod_mod_trivial)
  have f14: "le_int (take 4 (drop 14 ?body)) = wk AND 0xFFFFFFFF"
    unfolding d14 by (simp only: le_int_le_bytes_4 and_ffffffff mod_mod_trivial)
  show ?thesis
    by (intro exI [of _ ?body] conjI) (fact len magic f4 f5 f6 f7 f8 f10 f14 pay)+
qed

lemma eeprom_payload_nonempty: "eeprom_payload f a t s m wk \<noteq> []"
  using eeprom_payload_length [of f a t s m wk] by auto

lemma eeprom_save_state_True:
  assumes "eeprom_save_state e flags album track w = Inr (True, w')"
  shows "i2c w \<and> eeprom_addr w \<noteq> None \<and>
         (\<exists>wk. (case rtc_read_datetime e w of None \<Rightarrow> Inr 0 | Some dt \<Rightarrow> seconds_into_week dt) = Inr wk
            \<and> w' = w\<lparr>eeprom_mem := eeprom_write_chunks EEPROM_STATE_ADDR
                         (eeprom_payload flags album track (get_schedule_checksum e) (schedule_mtime e) wk)
                         0 (eeprom_mem w),
                      last_eeprom_save_ms := ticks_ms e\<rparr>)"
  using assms
  unfolding eeprom_save_state_def eeprom_write_def Let_def
  by (auto split: if_splits sum.splits prod.splits bool.splits simp: eeprom_payload_nonempty)

lemma eeprom_load_state_valid:
  assumes "eeprom_read e w EEPROM_STATE_ADDR EEPROM_STRUCT_LEN = Some raw"
    and "i2c w" "eeprom_addr w \<noteq> None" and "length raw = 20"
    and "take 4 raw = EEPROM_MAGIC" and "le_int (take 1 (drop 4 raw)) = EEPROM_VERSION"
    and "checksum16 (take 18 raw) = le_int (take 2 (drop 18 raw))"
  shows "eeprom_load_state e w =
          Some \<lparr>saved_flags = le_int (take 1 (drop 5 raw)),
                saved_album = le_int (take 1 (drop 6 raw)),
                saved_track = le_int (take 1 (drop 7 raw)),
                saved_schedule_checksum = le_int (take 2 (drop 8 raw)),
                saved_schedule_mtime = le_int (take 4 (drop 10 raw)),
                saved_week_seconds = le_int (take 4 (drop 14 raw))\<rparr>"
proof -
  have "raw \<noteq> []" using assms(4) by auto
  then show ?thesis using assms by (simp add: eeprom_load_state_def EEPROM_STRUCT_LEN_def)
qed

lemma eeprom_load_state_bad_checksum:
  assumes "eeprom_read e w EEPROM_STATE_ADDR EEPROM_STRUCT_LEN = Some raw"
    and "checksum16 (take (length raw - 2) raw) \<noteq> le_int (take 2 (drop 18 raw))"
  shows "eeprom_load_state e w = None"
  using assms by (auto simp: eeprom_load_state_def)

lemma eeprom_read_state_Some:
  "eeprom_read e w EEPROM_STATE_ADDR EEPROM_STRUCT_LEN = Some r \<Longrightarrow> r = take 20 (eeprom_mem w)"
  by (auto simp: eeprom_read_def EEPROM_STATE_ADDR_def EEPROM_STRUCT_LEN_def split: if_splits)

lemma eeprom_load_state_of_payload:
  assumes dev: "i2c w" "eeprom_addr w \<noteq> None" and bus: "bus_ok e"
    and mem: "take 20 (eeprom_mem w) = eeprom_payload f a t s m wk"
  shows "eeprom_load_state e w =
           Some \<lparr>saved_flags = f AND 0xFF, saved_album = a AND 0xFF, saved_track = t AND 0xFF,
                 saved_schedule_checksum = s AND 0xFFFF,
                 saved_schedule_mtime = m AND 0xFFFFFFFF,
                 saved_week_seconds = wk AND 0xFFFFFFFF\<rparr>"
proof -
  obtain body where len: "length body = 18" and magic: "take 4 body = EEPROM_MAGIC"
    and f4: "le_int (take 1 (drop 4 body)) = EEPROM_VERSION"
    and f5: "le_int (take 1 (drop 5 body)) = f AND 0xFF"
    and f6: "le_int (take 1 (drop 6 body)) = a AND 0xFF"
    and f7: "le_int (take 1 (drop 7 body)) = t AND 0xFF"
    and f8: "le_int (take 2 (drop 8 body)) = s AND 0xFFFF"
    and f10: "le_int (take 4 (drop 10 body)) = m AND 0xFFFFFFFF"
    and f14: "le_int (take 4 (drop 14 body)) = wk AND 0xFFFFFFFF"
    and pay: "eeprom_payload f a t s m wk = body @ le_bytes 2 (checksum16 body)"
    using eeprom_payload_split [of f a t s m wk] by blast
  let ?crc = "le_bytes 2 (checksum16 body)"
  let ?raw = "body @ ?crc"
  have rd: "eeprom_read e w EEPROM_STATE_ADDR EEPROM_STRUCT_LEN = Some ?raw"
    using dev bus mem pay
    by (simp add: eeprom_read_def EEPROM_STATE_ADDR_def EEPROM_STRUCT_LEN_def)
  have l: "length ?raw = 20" using len by (simp add: le_bytes_length)
  have ne: "?raw \<noteq> []" using l by auto
  have r4: "take 4 ?raw = take 4 body" using len by simp
  have r_4: "take 1 (drop 4 ?raw) = take 1 (drop 4 body)" using len by simp
  have r_5: "take 1 (drop 5 ?raw) = take 1 (drop 5 body)" using len by simp
  have r_6: "take 1 (drop 6 ?raw) = take 1 (drop 6 body)" using len by simp
  have r_7: "take 1 (drop 7 ?raw) = take 1 (drop 7 body)" using len by simp
  have r_8: "take 2 (drop 8 ?raw) = take 2 (drop 8 body)" using len by simp
  have r_10: "take 4 (drop 10 ?raw) = take 4 (drop 10 body)" using len by simp
  have r_14: "take 4 (drop 14 ?raw) = take 4 (drop 14 body)" using len by simp
  have r_18: "take 2 (drop 18 ?raw) = ?crc" using len by (simp add: le_bytes_length)
  have r_b: "take (length ?raw - 2) ?raw = body" using len by (simp add: le_bytes_length)
  have crc: "le_int ?crc = checksum16 body"
    by (simp only: le_int_le_bytes_2 checksum16_range)
  have r18b: "take 18 ?raw = body" using len by simp
  have c18: "checksum16 (take 18 ?raw) = le_int (take 2 (drop 18 ?raw))"
    by (simp only: r18b r_18 crc)
  have "eeprom_load_state e w =
          Some \<lparr>saved_flags = le_int (take 1 (drop 5 ?raw)),
                saved_album = le_int (take 1 (drop 6 ?raw)),
                saved_track = le_int (take 1 (drop 7 ?raw)),
                saved_schedule_checksum = le_int (take 2 (drop 8 ?raw)),
                saved_schedule_mtime = le_int (take 4 (drop 10 ?raw)),
                saved_week_seconds = le_int (take 4 (drop 14 ?raw))\<rparr>"
  proof (rule eeprom_load_state_valid [OF rd dev l])
    show "take 4 ?raw = EEPROM_MAGIC" by (simp only: r4 magic)
    show "le_int (take 1 (drop 4 ?raw)) = EEPROM_VERSION" by (simp only: r_4 f4)
    show "checksum16 (take 18 ?raw) = le_int (take 2 (drop 18 ?raw))" by (rule c18)
  qed
  then show ?thesis by (simp only: r_5 r_6 r_7 r_8 r_10 r_14 f5 f6 f7 f8 f10 f14)
qed

lemma eeprom_load_state_corrupt:
  assumes mem: "take 20 (eeprom_mem w) = eeprom_payload f a t s m wk"
    and i: "i < 18" and b: "b \<noteq> eeprom_mem w ! i"
  shows "eeprom_load_state e (w\<lparr>eeprom_mem := (eeprom_mem w)[i := b]\<rparr>) = None"
proof -
  obtain body where len: "length body = 18"
    and pay: "eeprom_payload f a t s m wk = body @ le_bytes 2 (checksum16 body)"
    using eeprom_payload_split [of f a t s m wk] by blast
  let ?crc = "le_bytes 2 (checksum16 body)"
  let ?w = "w\<lparr>eeprom_mem := (eeprom_mem w)[i := b]\<rparr>"
  let ?raw = "body[i := b] @ ?crc"
  have tk: "take 20 (eeprom_mem w) = body @ ?crc" using mem pay by simp
  have bi: "body ! i = eeprom_mem w ! i"
  proof -
    have "(take 20 (eeprom_mem w)) ! i = eeprom_mem w ! i" using i by simp
    then show ?thesis using tk i len by (simp add: nth_append)
  qed
  have raw: "take 20 ((eeprom_mem w)[i := b]) = ?raw"
  proof -
    have "take 20 ((eeprom_mem w)[i := b]) = (take 20 (eeprom_mem w))[i := b]"
      using i by (simp add: take_update_swap)
    then show ?thesis using tk i len by (simp add: list_update_append1)
  qed
  have l: "length ?raw = 20" using len by (simp add: le_bytes_length)
  have r_18: "take 2 (drop 18 ?raw) = ?crc" using len by (simp add: le_bytes_length)
  have r_b: "take (length ?raw - 2) ?raw = body[i := b]" using len by (simp add: le_bytes_length)
  have crc: "le_int ?crc = checksum16 body"
    by (simp only: le_int_le_bytes_2 checksum16_range)
  have bad: "checksum16 (body[i := b]) \<noteq> checksum16 body"
    using checksum16_update_differs [of i body b] i len b bi by simp
  have chk: "checksum16 (take (length ?raw - 2) ?raw) \<noteq> le_int (take 2 (drop 18 ?raw))"
    by (simp only: r_18 r_b crc bad not_False_eq_True)
  show ?thesis
  proof (cases "eeprom_read e ?w EEPROM_STATE_ADDR EEPROM_STRUCT_LEN")
    case None
    then show ?thesis by (simp add: eeprom_load_state_def)
  next
    case (Some r)
    have "r = ?raw" using eeprom_read_state_Some [OF Some] raw by simp
    then show ?thesis using eeprom_load_state_bad_checksum [OF Some] chk by simp
  qed
qed

text \<open>
  C6: a record that \<open>eeprom_save_state\<close> has written to a chip that holds it
  (twenty bytes or more) validates when it is read back unmodified, and
  \<open>eeprom_load_state\<close> returns its fields; after the alteration of any single byte
  other than the two trailing crc bytes (offsets 0 to 17, any other value),
  \<open>eeprom_load_state\<close> returns \<open>None\<close>, whatever the bus does.
\<close>

theorem eeprom_record_roundtrip:
  assumes saved: "eeprom_save_state e flags album track w = Inr (True, w')"
    and mem: "20 \<le> length (eeprom_mem w)"
    and bus: "bus_ok e'"
  shows "eeprom_load_state e' w' =
           Some \<lparr>saved_flags = flags AND 0xFF, saved_album = album AND 0xFF,
                 saved_track = track AND 0xFF,
                 saved_schedule_checksum = get_schedule_checksum e AND 0xFFFF,
                 saved_schedule_mtime = schedule_mtime e AND 0xFFFFFFFF,
                 saved_week_seconds =
                   (case rtc_read_datetime e w of
                      None \<Rightarrow> 0
                    | Some dt \<Rightarrow> (case seconds_into_week dt of Inl err \<Rightarrow> 0 | Inr sec \<Rightarrow> sec))
                   AND 0xFFFFFFFF\<rparr>
         \<and> (\<forall>i<18. \<forall>b. b \<noteq> eeprom_mem w' ! i \<longrightarrow>
                eeprom_load_state e'' (w'\<lparr>eeprom_mem := (eeprom_mem w')[i := b]\<rparr>) = None)"
proof -
  from eeprom_save_state_True [OF saved]
  obtain wk where dev: "i2c w" "eeprom_addr w \<noteq> None"
    and wk: "(case rtc_read_datetime e w of None \<Rightarrow> Inr 0 | Some dt \<Rightarrow> seconds_into_week dt) = Inr wk"
    and w': "w' = w\<lparr>eeprom_mem := eeprom_write_chunks EEPROM_STATE_ADDR
                         (eeprom_payload flags album track (get_schedule_checksum e) (schedule_mtime e) wk)
                         0 (eeprom_mem w),
                      last_eeprom_save_ms := ticks_ms e\<rparr>"
    by blast
  let ?p = "eeprom_payload flags album track (get_schedule_checksum e) (schedule_mtime e) wk"
  have pl: "length ?p = 20" by (rule eeprom_payload_length)
  have "eeprom_write_chunks 0 ?p 0 (eeprom_mem w) = ?p @ drop (length ?p) (eeprom_mem w)"
    using pl mem by (intro eeprom_write_chunks_one_page) simp_all
  then have m': "eeprom_mem w' = ?p @ drop 20 (eeprom_mem w)"
    using w' pl by (simp add: EEPROM_STATE_ADDR_def)
  have tk: "take 20 (eeprom_mem w') = ?p" using m' pl by simp
  have dev': "i2c w'" "eeprom_addr w' \<noteq> None" using dev w' by simp_all
  have wkv: "(case rtc_read_datetime e w of
                None \<Rightarrow> 0
              | Some dt \<Rightarrow> (case seconds_into_week dt of Inl err \<Rightarrow> 0 | Inr sec \<Rightarrow> sec)) = wk"
    using wk by (cases "rtc_read_datetime e w") auto
  have one: "eeprom_load_state e' w' =
           Some \<lparr>saved_flags = flags AND 0xFF, saved_album = album AND 0xFF,
                 saved_track = track AND 0xFF,
                 saved_schedule_checksum = get_schedule_checksum e AND 0xFFFF,
                 saved_schedule_mtime = schedule_mtime e AND 0xFFFFFFFF,
                 saved_week_seconds = wk AND 0xFFFFFFFF\<rparr>"
    by (rule eeprom_load_state_of_payload [OF dev' bus tk])
  have two: "\<forall>i<18. \<forall>b. b \<noteq> eeprom_mem w' ! i \<longrightarrow>
                eeprom_load_state e'' (w'\<lparr>eeprom_mem := (eeprom_mem w')[i := b]\<rparr>) = None"
    using eeprom_load_state_corrupt [OF tk] by blast
  show ?thesis using one two by (simp only: wkv)
qed

text \<open>
  C7 (as amended): a save request issued less than \<open>EEPROM_SAVE_MIN_MS\<close> after a
  request that wrote the record, at a tick reading other than 0, is a silent no-op:
  it returns False and leaves the stored bytes, and all other state, unchanged.
\<close>

theorem eeprom_save_rate_limited:
  assumes "eeprom_save_state e1 flags1 album1 track1 w = Inr (True, w1)"
    and "ticks_ms e1 \<noteq> 0"
    and "ticks_diff (ticks_ms e2) (ticks_ms e1) < EEPROM_SAVE_MIN_MS"
  shows "eeprom_save_state e2 flags2 album2 track2 w1 = Inr (False, w1)"
proof -
  from eeprom_save_state_True [OF assms(1)]
  have "last_eeprom_save_ms w1 = ticks_ms e1" by auto
  then show ?thesis using assms(2, 3) by (simp add: eeprom_save_state_def Let_def)
qed

lemma eeprom_save_state_writes:
  assumes "i2c w" "eeprom_addr w \<noteq> None" "bus_ok e"
    and "last_eeprom_save_ms w = 0
         \<or> EEPROM_SAVE_MIN_MS \<le> ticks_diff (ticks_ms e) (last_eeprom_save_ms w)"
    and "(case rtc_read_datetime e w of None \<Rightarrow> Inr 0 | Some dt \<Rightarrow> seconds_into_week dt) = Inr wk"
    and "20 \<le> length (eeprom_mem w)"
  shows "eeprom_save_state e flags album track w =
           Inr (True, w\<lparr>eeprom_mem :=
                          eeprom_payload flags album track (get_schedule_checksum e)
                            (schedule_mtime e) wk @ drop 20 (eeprom_mem w),
                        last_eeprom_save_ms := ticks_ms e\<rparr>)"
proof -
  let ?p = "eeprom_payload flags album track (get_schedule_checksum e) (schedule_mtime e) wk"
  have pl: "length ?p = 20" by (rule eeprom_payload_length)
  have ne: "?p \<noteq> []" by (rule eeprom_payload_nonempty)
  have ch: "eeprom_write_chunks 0 ?p 0 (eeprom_mem w) = ?p @ drop 20 (eeprom_mem w)"
    using eeprom_write_chunks_one_page [of ?p "eeprom_mem w"] pl assms(6) by simp
  have wr: "eeprom_write e EEPROM_STATE_ADDR ?p w
            = (True, w\<lparr>eeprom_mem := ?p @ drop 20 (eeprom_mem w)\<rparr>)"
    using assms(1-3) ne ch by (simp add: eeprom_write_def EEPROM_STATE_ADDR_def)
  have lim: "\<not> (last_eeprom_save_ms w \<noteq> 0
               \<and> ticks_diff (ticks_ms e) (last_eeprom_save_ms w) < EEPROM_SAVE_MIN_MS)"
    using assms(4) by auto
  show ?thesis
    unfolding eeprom_save_state_def Let_def
    using assms(1, 2) lim by (simp add: assms(5) wr)
qed

lemma example_checksum: "get_schedule_checksum example_env = 2193"
  by code_simp

lemma example_week_second: "seconds_into_week (2024, 1, 1, 0, 0, 12) = Inr 12"
  by code_simp

lemma example_payload_5:
  "eeprom_payload 1 3 5 2193 0 12
     = [79, 84, 82, 49, 1, 1, 3, 5, 145, 8, 0, 0, 0, 0, 12, 0, 0, 0, 213, 1]"
  by code_simp

lemma example_payload_6:
  "eeprom_payload 1 3 6 2193 0 12
     = [79, 84, 82, 49, 1, 1, 3, 6, 145, 8, 0, 0, 0, 0, 12, 0, 0, 0, 214, 1]"
  by code_simp

lemma example_save_5:
  "eeprom_save_state example_env 1 3 5 example_world = Inr (True, example_saved_world)"
proof -
  have "eeprom_save_state example_env 1 3 5 example_world =
           Inr (True, example_world\<lparr>eeprom_mem :=
                          eeprom_payload 1 3 5 (get_schedule_checksum example_env)
                            (schedule_mtime example_env) 12 @ drop 20 (eeprom_mem example_world),
                        last_eeprom_save_ms := ticks_ms example_env\<rparr>)"
    by (rule eeprom_save_state_writes)
      (simp_all add: example_world_def example_env_def rtc_read_datetime_def example_week_second)
  moreover have "schedule_mtime example_env = 0" "ticks_ms example_env = 1000"
    by (simp_all add: example_env_def)
  ultimately have "eeprom_save_state example_env 1 3 5 example_world =
           Inr (True, example_world\<lparr>eeprom_mem :=
                          eeprom_payload 1 3 5 2193 0 12 @ drop 20 (eeprom_mem example_world),
                        last_eeprom_save_ms := 1000\<rparr>)"
    by (simp only: example_checksum)
  then show ?thesis
    by (simp only: example_payload_5) (simp add: example_saved_world_def example_world_def)
qed

lemma example_save_6:
  "eeprom_save_state (example_env\<lparr>ticks_ms := 61200\<rparr>) 1 3 6 example_saved_world
     = Inr (True, example_saved_world
         \<lparr>eeprom_mem := [79, 84, 82, 49, 1, 1, 3, 6, 145, 8, 0, 0, 0, 0, 12, 0, 0, 0, 214, 1]
                          @ replicate 12 0xFF,
          last_eeprom_save_ms := 61200\<rparr>)"
proof -
  let ?e = "example_env\<lparr>ticks_ms := 61200\<rparr>"
  have cs: "get_schedule_checksum ?e = 2193"
    using example_checksum by (simp add: get_schedule_checksum_def)
  have d: "ticks_diff 61200 1000 = 60200" by code_simp
  have "eeprom_save_state ?e 1 3 6 example_saved_world =
           Inr (True, example_saved_world\<lparr>eeprom_mem :=
                          eeprom_payload 1 3 6 (get_schedule_checksum ?e)
                            (schedule_mtime ?e) 12 @ drop 20 (eeprom_mem example_saved_world),
                        last_eeprom_save_ms := ticks_ms ?e\<rparr>)"
    by (rule eeprom_save_state_writes)
      (simp_all add: example_saved_world_def example_world_def example_env_def
        rtc_read_datetime_def example_week_second d EEPROM_SAVE_MIN_MS_def)
  moreover have "schedule_mtime ?e = 0" "ticks_ms ?e = 61200"
    by (simp_all add: example_env_def)
  ultimately have "eeprom_save_state ?e 1 3 6 example_saved_world =
           Inr (True, example_saved_world\<lparr>eeprom_mem :=
                          eeprom_payload 1 3 6 2193 0 12 @ drop 20 (eeprom_mem example_saved_world),
                        last_eeprom_save_ms := 61200\<rparr>)"
    by (simp only: cs)
  then show ?thesis
    by (simp only: example_payload_6) (simp add: example_saved_world_def example_world_def)
qed

lemma example_save_suppressed:
  "eeprom_save_state (example_env\<lparr>ticks_ms := 60500\<rparr>) 1 3 6 example_saved_world
     = Inr (False, example_saved_world)"
proof -
  have d: "ticks_diff 60500 1000 = 59500" by code_simp
  show ?thesis
    by (simp add: eeprom_save_state_def Let_def example_saved_world_def example_world_def d
        EEPROM_SAVE_MIN_MS_def)
qed

theorem eeprom_record_roundtrip_witness:
  "eeprom_save_state example_env 1 3 5 example_world = Inr (True, example_saved_world)
   \<and> 20 \<le> length (eeprom_mem example_world) \<and> bus_ok example_env
   \<and> eeprom_load_state example_env example_saved_world
       = Some \<lparr>saved_flags = 1, saved_album = 3, saved_track = 5,
                saved_schedule_checksum = 2193, saved_schedule_mtime = 0,
                saved_week_seconds = 12\<rparr>
   \<and> eeprom_mem example_saved_world ! 6 = 3
   \<and> eeprom_load_state example_env
         (example_saved_world\<lparr>eeprom_mem := (eeprom_mem example_saved_world)[6 := 4]\<rparr>) = None"
proof -
  have h1: "eeprom_save_state example_env 1 3 5 example_world = Inr (True, example_saved_world)"
    by (rule example_save_5)
  have h2: "20 \<le> length (eeprom_mem example_world)" by code_simp
  have h3: "bus_ok example_env" by code_simp
  have ld: "eeprom_load_state example_env example_saved_world
       = Some \<lparr>saved_flags = 1, saved_album = 3, saved_track = 5,
                saved_schedule_checksum = 2193, saved_schedule_mtime = 0,
                saved_week_seconds = 12\<rparr>"
    by code_simp
  have b: "eeprom_mem example_saved_world ! 6 = 3" by code_simp
  have "\<forall>i<18. \<forall>b. b \<noteq> eeprom_mem example_saved_world ! i \<longrightarrow>
          eeprom_load_state example_env
            (example_saved_world\<lparr>eeprom_mem := (eeprom_mem example_saved_world)[i := b]\<rparr>) = None"
    using eeprom_record_roundtrip [OF h1 h2 h3, of example_env] by blast
  then have "(4 :: byte) \<noteq> eeprom_mem example_saved_world ! 6 \<longrightarrow>
          eeprom_load_state example_env
            (example_saved_world\<lparr>eeprom_mem := (eeprom_mem example_saved_world)[6 := 4]\<rparr>) = None"
    by (elim allE [of _ 6]) simp
  then have "eeprom_load_state example_env
            (example_saved_world\<lparr>eeprom_mem := (eeprom_mem example_saved_world)[6 := 4]\<rparr>) = None"
    using b by simp
  then show ?thesis using h1 h2 h3 ld b by simp
qed

theorem eeprom_save_rate_limited_witness:
  "eeprom_save_state example_env 1 3 5 example_world = Inr (True, example_saved_world)
   \<and> ticks_ms example_env = 1000
   \<and> ticks_diff 60500 1000 = 59500 \<and> EEPROM_SAVE_MIN_MS = 60000
   \<and> eeprom_save_state (example_env\<lparr>ticks_ms := 60500\<rparr>) 1 3 6 example_saved_world
       = Inr (False, example_saved_world)"
proof -
  have h1: "eeprom_save_state example_env 1 3 5 example_world = Inr (True, example_saved_world)"
    by (rule example_save_5)
  have t: "ticks_ms example_env = 1000" by code_simp
  have d: "ticks_diff 60500 1000 = 59500" by code_simp
  have m: "EEPROM_SAVE_MIN_MS = 60000" by (simp add: EEPROM_SAVE_MIN_MS_def)
  have "eeprom_save_state (example_env\<lparr>ticks_ms := 60500\<rparr>) 1 3 6 example_saved_world
       = Inr (False, example_saved_world)"
    by (rule eeprom_save_rate_limited [OF h1]) (simp_all add: t d m)
  then show ?thesis using h1 t d m by simp
qed

text \<open>
  C7 as first stated fails: the record was written at tick 1000; a request at tick
  60500 is suppressed; the request at tick 61200, 700 ms after that one, writes the
  EEPROM (track byte 5 becomes 6, crc 213 becomes 214). The interval is measured
  from the last write, not from the last request.
\<close>

theorem eeprom_save_after_suppressed_request_writes:
  "eeprom_save_state (example_env\<lparr>ticks_ms := 60500\<rparr>) 1 3 6 example_saved_world
     = Inr (False, example_saved_world)
   \<and> ticks_diff 61200 60500 < EEPROM_SAVE_MIN_MS
   \<and> eeprom_save_state (example_env\<lparr>ticks_ms := 61200\<rparr>) 1 3 6 example_saved_world
     = Inr (True, example_saved_world
         \<lparr>eeprom_mem := [79, 84, 82, 49, 1, 1, 3, 6, 145, 8, 0, 0, 0, 0, 12, 0, 0, 0, 214, 1]
                          @ replicate 12 0xFF,
          last_eeprom_save_ms := 61200\<rparr>)
   \<and> eeprom_mem example_saved_world
     = [79, 84, 82, 49, 1, 1, 3, 5, 145, 8, 0, 0, 0, 0, 12, 0, 0, 0, 213, 1] @ replicate 12 0xFF"
proof -
  have "ticks_diff 61200 60500 < EEPROM_SAVE_MIN_MS" by code_simp
  moreover have "eeprom_mem example_saved_world
     = [79, 84, 82, 49, 1, 1, 3, 5, 145, 8, 0, 0, 0, 0, 12, 0, 0, 0, 213, 1] @ replicate 12 0xFF"
    by (simp add: example_saved_world_def)
  ultimately show ?thesis using example_save_suppressed example_save_6 by simp
qed

end
